theory Spec2Isabelle
  imports Complex_Main "HOL-Library.Log_Nat"
begin

section \<open>Data model of the map\<close>

text \<open>
  A JavaScript number is a \<open>real\<close>; the grid dimensions are \<open>int\<close>. The
  arithmetic of the tile index and of the tile origin is that of doubles: every
  operation rounds its result to binary64, and a result that is not a finite number
  (\<open>NaN\<close>, \<open>Infinity\<close>) is \<open>None\<close>. The depths \<open>z\<close> are layer numbers;
  their sums and their products with the tile height are written as exact. A value that
  may be \<open>undefined\<close> is an \<open>option\<close>. Objects that
  the code mutates or hands out by reference (the raw objects of the object layers, the
  \<open>RpgShape\<close> instances) live in an explicit store and are named by a reference.
\<close>

type_synonym ref = nat

text \<open>The \<open>properties\<close> object of a layer, of a tile cell or of a shape.\<close>

record Properties =
  prop_z :: "real option"
  prop_collision :: "bool option"
  prop_overlay :: "bool option"
  prop_climb :: "bool option"
  prop_color :: "string option"

text \<open>The object literal \<open>{}\<close>: every key is undefined.\<close>

definition emptyProperties :: Properties where
  "emptyProperties =
     \<lparr>prop_z = None, prop_collision = None, prop_overlay = None,
      prop_climb = None, prop_color = None\<rparr>"

text \<open>\<open>HitObject\<close>: a raw shape definition, as found in an object layer.\<close>

record HitObject =
  obj_x :: real
  obj_y :: real
  obj_width :: real
  obj_height :: real
  obj_name :: "string option"
  obj_properties :: "Properties option"

text \<open>One cell of a tile layer.\<close>

record Tile =
  tile_properties :: Properties
  tile_objectGroups :: "HitObject list"

text \<open>
  A layer of the map document. \<open>layer_tiles\<close> is the array \<open>layer.tiles\<close>, whose
  entries may be missing; \<open>layer_objects\<close> is the array \<open>layer.objects\<close> of
  references to raw objects. The code reads the first only on layers of type
  \<open>'tile'\<close> and the second only on layers of type \<open>'object'\<close>.
\<close>

record Layer =
  layer_type :: string
  layer_properties :: Properties
  layer_tiles :: "Tile option list"
  layer_objects :: "ref list"

text \<open>The map document given to \<open>load\<close>.\<close>

record MapData =
  data_width :: int
  data_height :: int
  data_tileWidth :: real
  data_tileHeight :: real
  data_layers :: "Layer list"

text \<open>The fields of an \<open>RpgCommonMap\<close> instance; \<open>shapes\<close> holds references.\<close>

record RpgCommonMap =
  data :: "MapData option"
  width :: int
  height :: int
  tileWidth :: real
  tileHeight :: real
  layers :: "Layer list"
  shapes :: "ref list"

record TileInfo =
  tiles :: "Tile list"
  hasCollision :: "bool option"
  isClimbable :: "bool option"
  isOverlay :: "bool option"
  objectGroups :: "HitObject list"

text \<open>The result of \<open>getTileOriginPosition\<close>; a field is \<open>None\<close> when it is not a finite number.\<close>

record Point =
  point_x :: "real option"
  point_y :: "real option"

section \<open>Numbers\<close>

text \<open>
  Rounding to the nearest integer, ties to the even one, as binary64 rounds its
  significand.
\<close>

definition roundEven :: "real \<Rightarrow> int" where
  "roundEven v =
     (let f = \<lfloor>v\<rfloor>; d = v - of_int f
      in if d < 1 / 2 then f else if 1 / 2 < d then f + 1 else if even f then f else f + 1)"

text \<open>
  The binary exponent of a number other than 0: the \<open>e\<close> with
  \<open>2^e \<le> |r| < 2^(e+1)\<close>, computed from the number of bits of the integer part of
  \<open>|r|\<close>, or of its inverse when \<open>|r| < 1\<close>.
\<close>

definition exponent :: "real \<Rightarrow> int" where
  "exponent r =
     (if 1 \<le> \<bar>r\<bar> then bitlen \<lfloor>\<bar>r\<bar>\<rfloor> - 1 else - bitlen (\<lceil>1 / \<bar>r\<bar>\<rceil> - 1))"

definition overflowThreshold :: real where
  "overflowThreshold = 2 ^ 1024"

text \<open>
  The double nearest to a real (round to nearest, ties to even): 53 bits of
  significand, so the unit in the last place is \<open>2^(e - 52)\<close>; the exponent does
  not go below -1022 (subnormal numbers); a rounded value of magnitude \<open>2^1024\<close> or
  more is \<open>Infinity\<close>, which is \<open>None\<close>. The sign of a zero is not recorded: it
  shows only in a division by zero, whose result is \<open>None\<close> in either case.
\<close>

definition round64 :: "real \<Rightarrow> real option" where
  "round64 r =
     (if r = 0 then Some 0
      else let e = max (exponent r) (- 1022);
               u = 2 powi (e - 52);
               v = of_int (roundEven (r / u)) * u
           in if overflowThreshold \<le> \<bar>v\<bar> then None else Some v)"

text \<open>The reals that are doubles.\<close>

definition isDouble :: "real \<Rightarrow> bool" where
  "isDouble r \<longleftrightarrow> round64 r = Some r"

text \<open>
  The operators \<open>+\<close>, \<open>-\<close>, \<open>*\<close> and \<open>/\<close> on finite doubles. A division
  by zero gives \<open>NaN\<close> or \<open>Infinity\<close>.
\<close>

definition js_add :: "real \<Rightarrow> real \<Rightarrow> real option" where
  "js_add a b = round64 (a + b)"

definition js_sub :: "real \<Rightarrow> real \<Rightarrow> real option" where
  "js_sub a b = round64 (a - b)"

definition js_mul :: "real \<Rightarrow> real \<Rightarrow> real option" where
  "js_mul a b = round64 (a * b)"

definition js_div :: "real \<Rightarrow> real \<Rightarrow> real option" where
  "js_div a b = (if b = 0 then None else round64 (a / b))"

text \<open>\<open>Math.floor\<close> of a finite double, which is a double.\<close>

definition Math_floor :: "real \<Rightarrow> real" where
  "Math_floor v = of_int \<lfloor>v\<rfloor>"

section \<open>Tile index and tile lookup\<close>


definition widthPx :: "RpgCommonMap \<Rightarrow> real option" where
  "widthPx m = js_mul (of_int (width m)) (tileWidth m)"

definition heightPx :: "RpgCommonMap \<Rightarrow> real option" where
  "heightPx m = js_mul (of_int (height m)) (tileHeight m)"

text \<open>
  \<open>getTileIndex(x, y, [z] = [0])\<close>; the default is the call with \<open>z = 0\<close>. The
  arguments are finite doubles. Once an operand is not a finite number, so is the
  result: \<open>Math.floor\<close>, the product with \<open>width\<close> and the sum keep
  \<open>NaN\<close> and \<open>Infinity\<close> among themselves.
\<close>

definition getTileIndex :: "RpgCommonMap \<Rightarrow> real \<Rightarrow> real \<Rightarrow> real \<Rightarrow> real option" where
  "getTileIndex m x y z =
     Option.bind (js_sub y z) (\<lambda>dy.
     Option.bind (js_div dy (tileHeight m)) (\<lambda>row.
     Option.bind (js_mul (of_int (width m)) (Math_floor row)) (\<lambda>base.
     Option.bind (js_div x (tileWidth m)) (\<lambda>col.
       js_add base (Math_floor col)))))"

definition getTileOriginPosition :: "RpgCommonMap \<Rightarrow> real \<Rightarrow> real \<Rightarrow> Point" where
  "getTileOriginPosition m x y =
     \<lparr>point_x = Option.bind (js_div x (tileWidth m))
                  (\<lambda>col. js_mul (Math_floor col) (tileWidth m)),
      point_y = Option.bind (js_div y (tileHeight m))
                  (\<lambda>row. js_mul (Math_floor row) (tileHeight m))\<rparr>"

text \<open>
  \<open>layer.tiles[tileIndex]\<close>: an index outside the array reads \<open>undefined\<close>, as
  does a hole of the array.
\<close>

definition tileAt :: "Tile option list \<Rightarrow> int \<Rightarrow> Tile option" where
  "tileAt ts i = (if 0 \<le> i \<and> i < int (length ts) then ts ! nat i else None)"

text \<open>
  The body of the loop of \<open>getTileByIndex\<close> for one layer: it returns the array
  \<open>tiles\<close> as the iteration leaves it. The helper \<open>intersection\<close> of
  \<open>./Utils\<close> is outside the verified sources and is the parameter
  \<open>isect\<close>; it is called on the pair \<open>zPlayer\<close> and the pair
  \<open>[realZ, realZ + tileHeight]\<close>.
\<close>

definition layerStep ::
  "(real \<times> real \<Rightarrow> real \<times> real \<Rightarrow> bool) \<Rightarrow> RpgCommonMap \<Rightarrow> int \<Rightarrow> real \<times> real \<Rightarrow>
   Tile list \<Rightarrow> Layer \<Rightarrow> Tile list" where
  "layerStep isect m tileIndex zPlayer acc layer =
     (if layer_type layer \<noteq> ''tile'' then acc
      else case tileAt (layer_tiles layer) tileIndex of
        None \<Rightarrow> acc
      | Some t \<Rightarrow>
          let zLayer = prop_z (layer_properties layer);
              zTile = prop_z (tile_properties t);
              z = (case zLayer of
                     Some zl \<Rightarrow> Some (zl + (case zTile of Some zt \<Rightarrow> zt | None \<Rightarrow> 0))
                   | None \<Rightarrow> (case zTile of Some zt \<Rightarrow> Some zt | None \<Rightarrow> None));
              zIntersection = (case z of
                     Some zv \<Rightarrow>
                       (let realZ = zv * tileHeight m
                        in Some (isect zPlayer (realZ, realZ + tileHeight m)))
                   | None \<Rightarrow> None)
          in (case zIntersection of
                Some b \<Rightarrow> (if b then acc @ [t] else acc)
              | None \<Rightarrow> acc @ [t]))"

text \<open>The loop over \<open>this.layers\<close>, in list order.\<close>

fun collectTiles ::
  "(real \<times> real \<Rightarrow> real \<times> real \<Rightarrow> bool) \<Rightarrow> RpgCommonMap \<Rightarrow> int \<Rightarrow> real \<times> real \<Rightarrow>
   Tile list \<Rightarrow> Layer list \<Rightarrow> Tile list" where
  "collectTiles isect m tileIndex zPlayer acc [] = acc"
| "collectTiles isect m tileIndex zPlayer acc (layer # rest) =
     collectTiles isect m tileIndex zPlayer (layerStep isect m tileIndex zPlayer acc layer) rest"

text \<open>
  \<open>getTileByIndex(tileIndex, zPlayer = [0, 0])\<close>. \<open>tiles[tiles.length - 1]\<close> is
  undefined exactly when \<open>tiles\<close> is empty, since only cells that are present are
  pushed. The first result has no key \<open>isClimbable\<close>.
\<close>

definition getTileByIndex ::
  "(real \<times> real \<Rightarrow> real \<times> real \<Rightarrow> bool) \<Rightarrow> RpgCommonMap \<Rightarrow> int \<Rightarrow> real \<times> real \<Rightarrow> TileInfo" where
  "getTileByIndex isect m tileIndex zPlayer =
     (let ts = collectTiles isect m tileIndex zPlayer [] (layers m)
      in if ts = [] then
           \<lparr>tiles = ts, hasCollision = Some True, isClimbable = None,
            isOverlay = Some False, objectGroups = []\<rparr>
         else
           let getLastTile = last ts
           in \<lparr>tiles = ts,
               hasCollision = prop_collision (tile_properties getLastTile),
               isClimbable = prop_climb (tile_properties getLastTile),
               isOverlay = prop_overlay (tile_properties getLastTile),
               objectGroups = tile_objectGroups getLastTile\<rparr>)"

text \<open>
  \<open>getTileByPosition(x, y, z = [0, 0])\<close>. An index that is not a finite number, or
  not an integer, reads \<open>undefined\<close> in every layer, as the index -1 does.
\<close>

definition getTileByPosition ::
  "(real \<times> real \<Rightarrow> real \<times> real \<Rightarrow> bool) \<Rightarrow> RpgCommonMap \<Rightarrow> real \<Rightarrow> real \<Rightarrow> real \<times> real \<Rightarrow> TileInfo" where
  "getTileByPosition isect m x y z =
     (let tileIndex = (case getTileIndex m x y (fst z) of
                         Some v \<Rightarrow> (if v = of_int \<lfloor>v\<rfloor> then \<lfloor>v\<rfloor> else - 1)
                       | None \<Rightarrow> - 1)
      in getTileByIndex isect m tileIndex z)"

text \<open>
  Modelled from the spec: the helper \<open>intersection\<close> of \<open>./Utils\<close>, which is
  not among the sources. The specification has the cell's pixel interval
  \<open>[depth*tileHeight, depth*tileHeight + tileHeight]\<close> tested for overlap against
  the query's \<open>zRange\<close>; both are pairs of end points and both ends belong to the
  interval.
\<close>

definition intersection :: "real \<times> real \<Rightarrow> real \<times> real \<Rightarrow> bool" where
  "intersection a b = (max (fst a) (fst b) \<le> min (snd a) (snd b))"

subsection \<open>The specification's reading of the lookup\<close>

text \<open>
  The effective depth of a cell as the specification words it: the layer's \<open>z\<close> plus
  the tile's \<open>z\<close> (or 0) when the layer declares one, else the tile's \<open>z\<close>, else
  undefined.
\<close>

definition effectiveDepth :: "Layer \<Rightarrow> Tile \<Rightarrow> real option" where
  "effectiveDepth layer t =
     (if prop_z (layer_properties layer) \<noteq> None
      then Some (the (prop_z (layer_properties layer)) +
                 (if prop_z (tile_properties t) \<noteq> None then the (prop_z (tile_properties t)) else 0))
      else if prop_z (tile_properties t) \<noteq> None then Some (the (prop_z (tile_properties t)))
      else None)"

text \<open>
  A cell is included when it has no depth, or when the test \<open>isect\<close> accepts the
  query range and the cell's pixel interval.
\<close>

definition cellIncluded ::
  "(real \<times> real \<Rightarrow> real \<times> real \<Rightarrow> bool) \<Rightarrow> RpgCommonMap \<Rightarrow> real \<times> real \<Rightarrow> Layer \<Rightarrow> Tile \<Rightarrow> bool" where
  "cellIncluded isect m zRange layer t =
     (case effectiveDepth layer t of
        None \<Rightarrow> True
      | Some d \<Rightarrow> isect zRange (d * tileHeight m, d * tileHeight m + tileHeight m))"

text \<open>The cell a layer contributes to a query: none, or its cell at the index.\<close>

definition includedCell ::
  "(real \<times> real \<Rightarrow> real \<times> real \<Rightarrow> bool) \<Rightarrow> RpgCommonMap \<Rightarrow> int \<Rightarrow> real \<times> real \<Rightarrow> Layer \<Rightarrow> Tile list" where
  "includedCell isect m tileIndex zRange layer =
     (if layer_type layer = ''tile'' then
        (case tileAt (layer_tiles layer) tileIndex of
           None \<Rightarrow> []
         | Some t \<Rightarrow> (if cellIncluded isect m zRange layer t then [t] else []))
      else [])"

text \<open>The included cells of a query, in layer-list order.\<close>

definition includedCells ::
  "(real \<times> real \<Rightarrow> real \<times> real \<Rightarrow> bool) \<Rightarrow> RpgCommonMap \<Rightarrow> int \<Rightarrow> real \<times> real \<Rightarrow> Tile list" where
  "includedCells isect m tileIndex zRange =
     concat (map (includedCell isect m tileIndex zRange) (layers m))"


section \<open>The shape registry\<close>

record Hitbox =
  hit_x :: real
  hit_y :: real
  hit_width :: real
  hit_height :: real

record RpgShape =
  shape_name :: string
  shape_hitbox :: Hitbox
  shape_properties :: Properties


text \<open>
  The store: the raw objects by reference, the \<open>RpgShape\<close> instances by reference
  with the next free reference, and the number of calls of \<open>generateUID\<close> made so
  far.
\<close>

record World =
  hitObjects :: "ref \<Rightarrow> HitObject"
  rpgShapes :: "ref \<Rightarrow> RpgShape"
  nextRef :: ref
  uidCalls :: nat


text \<open>
  Modelled from the spec: the constructor of the class \<open>RpgShape\<close> of
  \<open>./Shape\<close>, which is not among the sources. The specification gives a shape a
  \<open>name\<close>, a \<open>hitbox\<close> that is the rectangle \<open>x, y, width, height\<close> of the raw
  object, and the \<open>properties\<close> mapping.
\<close>

definition newRpgShape :: "HitObject \<Rightarrow> RpgShape" where
  "newRpgShape obj =
     \<lparr>shape_name = (case obj_name obj of Some n \<Rightarrow> n | None \<Rightarrow> ''''),
      shape_hitbox = \<lparr>hit_x = obj_x obj, hit_y = obj_y obj,
                      hit_width = obj_width obj, hit_height = obj_height obj\<rparr>,
      shape_properties =
        (case obj_properties obj of Some p \<Rightarrow> p | None \<Rightarrow> emptyProperties)\<rparr>"

text \<open>\<open>obj.name\<close> is falsy: undefined or the empty string.\<close>

definition lacksName :: "HitObject \<Rightarrow> bool" where
  "lacksName obj = (case obj_name obj of None \<Rightarrow> True | Some n \<Rightarrow> n = '''')"

text \<open>
  \<open>createShape(obj)\<close>. The argument is a reference to the caller's object, which is
  updated in the store. The helper \<open>generateUID\<close> of \<open>./Utils\<close> is outside
  the verified sources: the parameter \<open>generateUID\<close> gives the value of its
  \<open>n\<close>-th call. \<open>new RpgShape(obj)\<close> takes the next free reference, which is
  pushed onto \<open>this.shapes\<close>; the result is \<open>this.shapes[this.shapes.length - 1]\<close>.
\<close>

definition createShape ::
  "(nat \<Rightarrow> string) \<Rightarrow> ref \<Rightarrow> RpgCommonMap \<times> World \<Rightarrow> ref \<times> RpgCommonMap \<times> World" where
  "createShape generateUID objRef s =
     (let m = fst s; w = snd s;
          obj = hitObjects w objRef;
          named = (if lacksName obj then generateUID (uidCalls w) else the (obj_name obj));
          calls = (if lacksName obj then Suc (uidCalls w) else uidCalls w);
          obj1 = obj\<lparr>obj_name := Some named\<rparr>;
          obj2 = obj1\<lparr>obj_properties :=
                   Some (case obj_properties obj1 of Some p \<Rightarrow> p | None \<Rightarrow> emptyProperties)\<rparr>;
          shape = nextRef w;
          w1 = w\<lparr>hitObjects := (hitObjects w)(objRef := obj2),
                 rpgShapes := (rpgShapes w)(shape := newRpgShape obj2),
                 nextRef := Suc (nextRef w),
                 uidCalls := calls\<rparr>;
          m1 = m\<lparr>shapes := shapes m @ [shape]\<rparr>
      in (last (shapes m1), m1, w1))"

definition removeShape :: "string \<Rightarrow> RpgCommonMap \<times> World \<Rightarrow> RpgCommonMap \<times> World" where
  "removeShape name s =
     ((fst s)\<lparr>shapes := filter (\<lambda>shape. shape_name (rpgShapes (snd s) shape) \<noteq> name)
                           (shapes (fst s))\<rparr>,
      snd s)"







text \<open>The inner loop of \<open>_extractShapes\<close> over \<open>layer.objects\<close>.\<close>

fun createShapes ::
  "(nat \<Rightarrow> string) \<Rightarrow> ref list \<Rightarrow> RpgCommonMap \<times> World \<Rightarrow> RpgCommonMap \<times> World" where
  "createShapes generateUID [] s = s"
| "createShapes generateUID (obj # rest) s =
     createShapes generateUID rest (snd (createShape generateUID obj s))"

text \<open>The outer loop of \<open>_extractShapes\<close> over \<open>this.layers\<close>.\<close>

fun extractLayers ::
  "(nat \<Rightarrow> string) \<Rightarrow> Layer list \<Rightarrow> RpgCommonMap \<times> World \<Rightarrow> RpgCommonMap \<times> World" where
  "extractLayers generateUID [] s = s"
| "extractLayers generateUID (layer # rest) s =
     extractLayers generateUID rest
       (if layer_type layer \<noteq> ''object'' then s
        else createShapes generateUID (layer_objects layer) s)"

definition extractShapes ::
  "(nat \<Rightarrow> string) \<Rightarrow> RpgCommonMap \<times> World \<Rightarrow> RpgCommonMap \<times> World" where
  "extractShapes generateUID s = extractLayers generateUID (layers (fst s)) s"

definition load ::
  "(nat \<Rightarrow> string) \<Rightarrow> MapData \<Rightarrow> RpgCommonMap \<times> World \<Rightarrow> RpgCommonMap \<times> World" where
  "load generateUID dat s =
     extractShapes generateUID
       ((fst s)\<lparr>data := Some dat,
                width := data_width dat,
                tileWidth := data_tileWidth dat,
                tileHeight := data_tileHeight dat,
                height := data_height dat,
                layers := data_layers dat\<rparr>,
        snd s)"

text \<open>A freshly constructed instance.\<close>

definition newRpgCommonMap :: RpgCommonMap where
  "newRpgCommonMap =
     \<lparr>data = None, width = 0, height = 0, tileWidth = 0, tileHeight = 0,
      layers = [], shapes = []\<rparr>"

subsection \<open>The specification's reading of the registry\<close>

text \<open>
  Every reference of the registry has been handed out by \<open>new RpgShape\<close>.
\<close>

definition registryAllocated :: "RpgCommonMap \<times> World \<Rightarrow> bool" where
  "registryAllocated s = list_all (\<lambda>shape. shape < nextRef (snd s)) (shapes (fst s))"


text \<open>The objects of a document that \<open>load\<close> registers: those of its object layers.\<close>

definition documentObjects :: "MapData \<Rightarrow> ref list" where
  "documentObjects dat =
     concat (map layer_objects (filter (\<lambda>layer. layer_type layer = ''object'') (data_layers dat)))"

text \<open>
  What \<open>createShape\<close> leaves in a raw object: the name \<open>n\<close> when it lacked one,
  and an empty \<open>properties\<close> mapping when it had none.
\<close>

definition completed :: "string \<Rightarrow> HitObject \<Rightarrow> HitObject" where
  "completed n obj =
     obj\<lparr>obj_name := Some (if lacksName obj then n else the (obj_name obj)),
         obj_properties :=
           Some (case obj_properties obj of Some p \<Rightarrow> p | None \<Rightarrow> emptyProperties)\<rparr>"

text \<open>
  The objects of a list completed in order, the \<open>k\<close>-th object without a name
  receiving the value of call \<open>c + k\<close> of \<open>generateUID\<close>.
\<close>

fun assignNames :: "(nat \<Rightarrow> string) \<Rightarrow> nat \<Rightarrow> HitObject list \<Rightarrow> HitObject list" where
  "assignNames generateUID c [] = []"
| "assignNames generateUID c (obj # rest) =
     completed (generateUID c) obj #
     assignNames generateUID (if lacksName obj then Suc c else c) rest"

section \<open>The GUI session\<close>

text \<open>
  A function stored in \<open>_close\<close>: the initial \<open>() => {}\<close>, or the \<open>resolve\<close>
  function of a promise.
\<close>

datatype resolver = Noop | ResolveOf ref

datatype 'v promiseState = Pending | Fulfilled "'v option"

text \<open>
  What the session does to the outside, in order: the two notifications emitted on the
  player, and the calls of a resolver with their argument.
\<close>

datatype 'v action =
    EmitGuiOpen string "'v option"
  | EmitGuiExit string
  | CallResolver resolver "'v option"

text \<open>
  A \<open>Gui\<close> instance with its player (\<open>canMove\<close>), the promises created so far (a
  promise is named by its position) and the record of actions.
\<close>

record 'v Gui =
  gui_id :: string
  gui_close :: resolver
  gui_blockPlayerInput :: bool
  player_canMove :: int
  promises :: "'v promiseState list"
  actions :: "'v action list"

definition emit :: "'v action \<Rightarrow> 'v Gui \<Rightarrow> 'v Gui" where
  "emit a g = g\<lparr>actions := actions g @ [a]\<rparr>"

text \<open>
  Calling a resolver: \<open>() => {}\<close> does nothing, and the \<open>resolve\<close> function of a
  promise settles it when it is still pending and does nothing otherwise.
\<close>

definition callResolver :: "resolver \<Rightarrow> 'v option \<Rightarrow> 'v Gui \<Rightarrow> 'v Gui" where
  "callResolver f v g =
     (let g1 = g\<lparr>actions := actions g @ [CallResolver f v]\<rparr>
      in case f of
           Noop \<Rightarrow> g1
         | ResolveOf p \<Rightarrow>
             (if p < length (promises g1) \<and> promises g1 ! p = Pending
              then g1\<lparr>promises := (promises g1)[p := Fulfilled v]\<rparr>
              else g1))"

text \<open>
  \<open>open(data, {waitingAction, blockPlayerInput})\<close>: the promise is created, its
  executor runs at once, and the promise is returned.
\<close>

definition Gui_open :: "'v option \<Rightarrow> bool \<Rightarrow> bool \<Rightarrow> 'v Gui \<Rightarrow> ref \<times> 'v Gui" where
  "Gui_open dat waitingAction blockPlayerInput g =
     (let promise = length (promises g);
          g0 = g\<lparr>promises := promises g @ [Pending]\<rparr>;
          g1 = emit (EmitGuiOpen (gui_id g0) dat) g0;
          g2 = g1\<lparr>gui_blockPlayerInput := blockPlayerInput\<rparr>;
          g3 = (if blockPlayerInput then g2\<lparr>player_canMove := 0\<rparr> else g2);
          g4 = (if \<not> waitingAction then callResolver (ResolveOf promise) None g3
                else g3\<lparr>gui_close := ResolveOf promise\<rparr>)
      in (promise, g4))"

definition Gui_close :: "'v option \<Rightarrow> 'v Gui \<Rightarrow> 'v Gui" where
  "Gui_close dat g =
     (let g1 = emit (EmitGuiExit (gui_id g)) g;
          g2 = (if gui_blockPlayerInput g1 then g1\<lparr>player_canMove := 1\<rparr> else g1)
      in callResolver (gui_close g2) dat g2)"

text \<open>A \<open>Gui\<close> as its constructor leaves it, for a player that can move.\<close>

definition newGui :: "string \<Rightarrow> 'v Gui" where
  "newGui i =
     \<lparr>gui_id = i, gui_close = Noop, gui_blockPlayerInput = False,
      player_canMove = 1, promises = [], actions = []\<rparr>"

text \<open>A call of one of the two methods, and a sequence of calls.\<close>

datatype 'v call = Open "'v option" bool bool | Close "'v option"

fun perform :: "'v call \<Rightarrow> 'v Gui \<Rightarrow> 'v Gui" where
  "perform (Open dat waitingAction blockPlayerInput) g =
     snd (Gui_open dat waitingAction blockPlayerInput g)"
| "perform (Close dat) g = Gui_close dat g"

fun performAll :: "'v call list \<Rightarrow> 'v Gui \<Rightarrow> 'v Gui" where
  "performAll [] g = g"
| "performAll (c # cs) g = performAll cs (perform c g)"

fun isOpen :: "'v call \<Rightarrow> bool" where
  "isOpen (Open dat waitingAction blockPlayerInput) = True"
| "isOpen (Close dat) = False"

text \<open>
  A pending promise whose \<open>resolve\<close> function is not the one stored in \<open>_close\<close>
  stays pending, whatever is called.
\<close>

definition abandoned :: "ref \<Rightarrow> 'v Gui \<Rightarrow> bool" where
  "abandoned q g \<longleftrightarrow>
     q < length (promises g) \<and> promises g ! q = Pending \<and> gui_close g \<noteq> ResolveOf q"

section \<open>Example values\<close>

text \<open>Two stacked tile layers over one tile of 32 by 32 pixels, and an object layer.\<close>

definition lowCell :: Tile where
  "lowCell =
     \<lparr>tile_properties = emptyProperties\<lparr>prop_collision := Some False, prop_overlay := Some False\<rparr>,
      tile_objectGroups = []\<rparr>"

definition highCell :: Tile where
  "highCell =
     \<lparr>tile_properties = emptyProperties\<lparr>prop_collision := Some True, prop_overlay := Some True,
                                          prop_climb := Some True\<rparr>,
      tile_objectGroups =
        [\<lparr>obj_x = 0, obj_y = 0, obj_width = 32, obj_height = 16, obj_name = None,
          obj_properties = None\<rparr>]\<rparr>"

definition lowLayer :: Layer where
  "lowLayer =
     \<lparr>layer_type = ''tile'', layer_properties = emptyProperties\<lparr>prop_z := Some 0\<rparr>,
      layer_tiles = [Some lowCell], layer_objects = []\<rparr>"

definition highLayer :: Layer where
  "highLayer =
     \<lparr>layer_type = ''tile'', layer_properties = emptyProperties\<lparr>prop_z := Some 1\<rparr>,
      layer_tiles = [Some highCell], layer_objects = []\<rparr>"

definition markerLayer :: Layer where
  "markerLayer =
     \<lparr>layer_type = ''object'', layer_properties = emptyProperties,
      layer_tiles = [], layer_objects = [0, 1, 2]\<rparr>"

definition stackedMap :: RpgCommonMap where
  "stackedMap =
     \<lparr>data = None, width = 1, height = 1, tileWidth = 32, tileHeight = 32,
      layers = [lowLayer, highLayer], shapes = []\<rparr>"

text \<open>
  A map of 10 by 10 tiles whose tile width is the double written \<open>4.7\<close>.
\<close>

definition fractionalMap :: RpgCommonMap where
  "fractionalMap =
     stackedMap\<lparr>width := 10, height := 10,
                tileWidth := 5291729562160333 / 1125899906842624\<rparr>"

definition stackedData :: MapData where
  "stackedData =
     \<lparr>data_width = 1, data_height = 1, data_tileWidth = 32, data_tileHeight = 32,
      data_layers = [lowLayer, markerLayer, highLayer]\<rparr>"

text \<open>
  Three raw objects: one without name and properties, one named \<open>start\<close> at depth 2,
  one without name.
\<close>

definition markerObjects :: "ref \<Rightarrow> HitObject" where
  "markerObjects r =
     (if r = 0 then
        \<lparr>obj_x = 10, obj_y = 10, obj_width = 5, obj_height = 5, obj_name = None,
         obj_properties = None\<rparr>
      else if r = 1 then
        \<lparr>obj_x = 64, obj_y = 96, obj_width = 32, obj_height = 32, obj_name = Some ''start'',
         obj_properties = Some (emptyProperties\<lparr>prop_z := Some 2\<rparr>)\<rparr>
      else
        \<lparr>obj_x = 0, obj_y = 0, obj_width = 1, obj_height = 1, obj_name = None,
         obj_properties = Some emptyProperties\<rparr>)"

definition markerWorld :: World where
  "markerWorld =
     \<lparr>hitObjects = markerObjects, rpgShapes = (\<lambda>r. newRpgShape (markerObjects 0)),
      nextRef = 0, uidCalls = 0\<rparr>"

text \<open>A generator of identifiers that never repeats: \<open>u\<close>, \<open>uu\<close>, \<open>uuu\<close>, ...\<close>

definition markerUID :: "nat \<Rightarrow> string" where
  "markerUID n = replicate (Suc n) CHR ''u''"




section \<open>Properties of the numbers\<close>

lemma roundEven_of_int: "roundEven (of_int n) = n"
  by (simp add: roundEven_def)

lemma roundEven_error: "\<bar>of_int (roundEven v) - v\<bar> \<le> 1 / 2"
  unfolding roundEven_def Let_def by (auto; linarith)

lemma bitlen_ge1: "0 < n \<Longrightarrow> 1 \<le> bitlen n"
  using bitlen_eq_zero_iff [of n] bitlen_nonneg [of n] by linarith

lemma exponent_bounds:
  assumes "r \<noteq> 0"
  shows "2 powi exponent r \<le> \<bar>r\<bar> \<and> \<bar>r\<bar> < 2 powi (exponent r + 1)"
proof (cases "1 \<le> \<bar>r\<bar>")
  case True
  let ?n = "\<lfloor>\<bar>r\<bar>\<rfloor>"
  have n: "0 < ?n" using True by linarith
  have b: "1 \<le> bitlen ?n" using n by (rule bitlen_ge1)
  have e: "exponent r = bitlen ?n - 1" using True by (simp add: exponent_def)
  have lo: "(2::int) ^ nat (bitlen ?n - 1) \<le> ?n" and hi: "?n < 2 ^ nat (bitlen ?n)"
    using bitlen_bounds [OF n] by simp_all
  have "(2::real) powi (bitlen ?n - 1) = of_int (2 ^ nat (bitlen ?n - 1))"
    using b by (simp add: power_int_def)
  also have "\<dots> \<le> of_int ?n" using lo by (simp only: of_int_le_iff)
  also have "\<dots> \<le> \<bar>r\<bar>" by simp
  finally have 1: "2 powi exponent r \<le> \<bar>r\<bar>" by (simp add: e)
  have "?n + 1 \<le> 2 ^ nat (bitlen ?n)" using hi by simp
  then have "of_int (?n + 1) \<le> (of_int (2 ^ nat (bitlen ?n)) :: real)"
    by (simp only: of_int_le_iff)
  moreover have "\<bar>r\<bar> < of_int (?n + 1)" by linarith
  ultimately have "\<bar>r\<bar> < (of_int (2 ^ nat (bitlen ?n)) :: real)" by linarith
  moreover have "(2::real) powi (bitlen ?n) = of_int (2 ^ nat (bitlen ?n))"
    using b by (simp add: power_int_def)
  ultimately have 2: "\<bar>r\<bar> < 2 powi (exponent r + 1)" by (simp add: e)
  show ?thesis using 1 2 by simp
next
  case False
  then have small: "\<bar>r\<bar> < 1" and pos: "0 < \<bar>r\<bar>" using assms by simp_all
  let ?c = "\<lceil>1 / \<bar>r\<bar>\<rceil>"
  have big: "1 < 1 / \<bar>r\<bar>" using small pos by (simp add: field_simps)
  then have c: "0 < ?c - 1" by linarith
  have b: "1 \<le> bitlen (?c - 1)" using c by (rule bitlen_ge1)
  have e: "exponent r = - bitlen (?c - 1)" using False by (simp add: exponent_def)
  have lo: "(2::int) ^ nat (bitlen (?c - 1) - 1) \<le> ?c - 1" and hi: "?c - 1 < 2 ^ nat (bitlen (?c - 1))"
    using bitlen_bounds [OF c] by simp_all
  have "1 / \<bar>r\<bar> \<le> of_int ?c" by linarith
  also have "of_int ?c \<le> (of_int (2 ^ nat (bitlen (?c - 1))) :: real)"
    using hi by (simp only: of_int_le_iff)
  finally have up: "1 / \<bar>r\<bar> \<le> 2 ^ nat (bitlen (?c - 1))" by simp
  have "(of_int (2 ^ nat (bitlen (?c - 1) - 1)) :: real) \<le> of_int (?c - 1)"
    using lo by (simp only: of_int_le_iff)
  also have "of_int (?c - 1) < 1 / \<bar>r\<bar>" by linarith
  finally have down: "2 ^ nat (bitlen (?c - 1) - 1) < 1 / \<bar>r\<bar>" by simp
  have p1: "(2::real) powi (- bitlen (?c - 1)) = 1 / 2 ^ nat (bitlen (?c - 1))"
    using b by (simp add: power_int_def field_simps)
  have p2: "(2::real) powi (- bitlen (?c - 1) + 1) = 1 / 2 ^ nat (bitlen (?c - 1) - 1)"
  proof -
    have "- bitlen (?c - 1) + 1 = - (bitlen (?c - 1) - 1)" by simp
    then show ?thesis using b by (simp add: power_int_minus field_simps power_int_def)
  qed
  have 1: "2 powi exponent r \<le> \<bar>r\<bar>"
    unfolding e p1 using up pos by (simp add: field_simps)
  have 2: "\<bar>r\<bar> < 2 powi (exponent r + 1)"
    unfolding e p2 using down pos by (simp add: field_simps)
  show ?thesis using 1 2 by simp
qed

lemma pow2_pos: "0 < (2::real) powi k"
  by simp

lemma exponent_unique:
  assumes "2 powi e \<le> \<bar>r\<bar>" and "\<bar>r\<bar> < 2 powi (e + 1)"
  shows "exponent r = e"
proof -
  have nz: "r \<noteq> 0"
  proof
    assume "r = 0"
    then have "2 powi e \<le> (0::real)" using assms(1) by simp
    then show False using pow2_pos [of e] by linarith
  qed
  note b = exponent_bounds [OF nz]
  have 1: "exponent r < e + 1"
  proof (rule ccontr)
    assume "\<not> exponent r < e + 1"
    then have "(2::real) powi (e + 1) \<le> 2 powi exponent r"
      by (intro power_int_increasing) simp_all
    then show False using b assms(2) by linarith
  qed
  have 2: "e < exponent r + 1"
  proof (rule ccontr)
    assume "\<not> e < exponent r + 1"
    then have "(2::real) powi (exponent r + 1) \<le> 2 powi e"
      by (intro power_int_increasing) simp_all
    then show False using b assms(1) by linarith
  qed
  show ?thesis using 1 2 by simp
qed

lemma round64_normal:
  assumes "2 powi e \<le> \<bar>r\<bar>" and "\<bar>r\<bar> < 2 powi (e + 1)" and "- 1022 \<le> e"
  shows "round64 r =
           (if overflowThreshold \<le> \<bar>of_int (roundEven (r / 2 powi (e - 52))) * 2 powi (e - 52)\<bar>
            then None
            else Some (of_int (roundEven (r / 2 powi (e - 52))) * 2 powi (e - 52)))"
proof -
  have nz: "r \<noteq> 0"
  proof
    assume "r = 0"
    then have "2 powi e \<le> (0::real)" using assms(1) by simp
    then show False using pow2_pos [of e] by linarith
  qed
  have "max (exponent r) (- 1022) = e"
    using exponent_unique [OF assms(1,2)] assms(3) by simp
  then show ?thesis
    using nz by (simp add: round64_def Let_def)
qed

text \<open>The integers of magnitude below \<open>2^53\<close> are doubles.\<close>

lemma round64_of_int:
  assumes "\<bar>n\<bar> < 2 ^ 53"
  shows "round64 (of_int n) = Some (of_int n)"
proof (cases "n = 0")
  case True
  then show ?thesis by (simp add: round64_def)
next
  case False
  let ?r = "of_int n :: real"
  let ?e = "exponent ?r"
  have nz: "?r \<noteq> 0" using False by simp
  note b = exponent_bounds [OF nz]
  have one: "1 \<le> \<bar>?r\<bar>" using False by (simp flip: of_int_abs)
  have lt: "\<bar>?r\<bar> < 2 ^ 53"
    using assms by (metis of_int_abs of_int_less_numeral_power_cancel_iff)
  have e0: "0 \<le> ?e"
  proof (rule ccontr)
    assume "\<not> 0 \<le> ?e"
    then have "(2::real) powi (?e + 1) \<le> 2 powi 0"
      by (intro power_int_increasing) simp_all
    then show False using b one by simp
  qed
  have e52: "?e \<le> 52"
  proof (rule ccontr)
    assume "\<not> ?e \<le> 52"
    then have "(2::real) powi 53 \<le> 2 powi ?e"
      by (intro power_int_increasing) simp_all
    then show False using b lt by simp
  qed
  obtain k where k: "52 - ?e = int k"
    using e52 by (metis diff_ge_0_iff_ge nonneg_int_cases)
  have u: "(2::real) powi (?e - 52) = 1 / 2 ^ k"
  proof -
    have "(2::real) powi (- int k) = 1 / 2 ^ k"
      by (simp add: power_int_minus field_simps)
    moreover have "?e - 52 = - int k" using k by simp
    ultimately show ?thesis by (simp only:)
  qed
  have q: "?r / 2 powi (?e - 52) = of_int (n * 2 ^ k)"
    by (simp add: u)
  have v: "of_int (roundEven (?r / 2 powi (?e - 52))) * 2 powi (?e - 52) = ?r"
    unfolding q roundEven_of_int by (simp add: u)
  have fin: "\<not> overflowThreshold \<le> \<bar>?r\<bar>"
  proof -
    have "(2::real) ^ 53 \<le> 2 ^ 1024" by (intro power_increasing) simp_all
    then show ?thesis using lt unfolding overflowThreshold_def by linarith
  qed
  have "max ?e (- 1022) = ?e" using e0 by simp
  then show ?thesis
    using nz v fin by (simp add: round64_def Let_def)
qed

text \<open>
  Below the overflow range, rounding yields a finite double, off by at most half a unit
  in the last place.
\<close>

lemma round64_error:
  assumes "\<bar>r\<bar> \<le> 2 ^ 1023"
  shows "\<exists>v. round64 r = Some v \<and> \<bar>v - r\<bar> \<le> \<bar>r\<bar> / 2 ^ 53 + 1 / 2 ^ 1075"
proof (cases "r = 0")
  case True
  then show ?thesis by (simp add: round64_def)
next
  case False
  let ?e = "max (exponent r) (- 1022)"
  let ?u = "(2::real) powi (?e - 52)"
  let ?v = "of_int (roundEven (r / ?u)) * ?u"
  note b = exponent_bounds [OF False]
  have upos: "0 < ?u" by simp
  have "\<bar>of_int (roundEven (r / ?u)) - r / ?u\<bar> \<le> 1 / 2"
    by (rule roundEven_error)
  then have "\<bar>of_int (roundEven (r / ?u)) - r / ?u\<bar> * ?u \<le> 1 / 2 * ?u"
    using upos by (intro mult_right_mono) simp_all
  moreover have "\<bar>of_int (roundEven (r / ?u)) - r / ?u\<bar> * ?u = \<bar>?v - r\<bar>"
  proof -
    have "\<bar>of_int (roundEven (r / ?u)) - r / ?u\<bar> * ?u
            = \<bar>(of_int (roundEven (r / ?u)) - r / ?u) * ?u\<bar>"
      using upos by (simp add: abs_mult)
    also have "(of_int (roundEven (r / ?u)) - r / ?u) * ?u = ?v - r"
      using upos by (simp add: algebra_simps)
    finally show ?thesis .
  qed
  ultimately have err: "\<bar>?v - r\<bar> \<le> ?u / 2" by simp
  have half: "?u / 2 \<le> \<bar>r\<bar> / 2 ^ 53 + 1 / 2 ^ 1075"
  proof (cases "- 1022 \<le> exponent r")
    case True
    then have "?u = 2 powi exponent r / 2 powi 52"
      by (simp add: max_def power_int_diff)
    then have "?u / 2 = 2 powi exponent r / 2 ^ 53"
      by simp
    also have "\<dots> \<le> \<bar>r\<bar> / 2 ^ 53"
      using b by (intro divide_right_mono) simp_all
    finally show ?thesis by simp
  next
    case False
    then have "?u = 2 powi (- 1074)" by (simp add: max_def)
    then have "?u / 2 = 1 / 2 ^ 1075"
      by (simp add: power_int_minus field_simps)
    then show ?thesis by simp
  qed
  have close: "\<bar>?v - r\<bar> \<le> \<bar>r\<bar> / 2 ^ 53 + 1 / 2 ^ 1075"
    using err half by linarith
  define A where "A = (2::real) ^ 1023"
  have A4: "4 \<le> A"
  proof -
    have "(2::real) ^ 2 \<le> 2 ^ 1023" by (intro power_increasing) simp_all
    then show ?thesis by (simp add: A_def)
  qed
  have rA: "\<bar>r\<bar> \<le> A" using assms by (simp add: A_def)
  have "\<bar>r\<bar> / 2 ^ 53 \<le> \<bar>r\<bar> / 4"
    by (intro divide_left_mono) simp_all
  moreover have "(1::real) / 2 ^ 1075 \<le> 1"
    by (simp add: field_simps)
  moreover have "\<bar>?v\<bar> \<le> \<bar>r\<bar> + \<bar>?v - r\<bar>" by linarith
  ultimately have "\<bar>?v\<bar> < 2 * A"
    using close rA A4 by linarith
  moreover have "overflowThreshold = 2 * A"
    by (simp add: overflowThreshold_def A_def)
  ultimately have fin: "\<not> overflowThreshold \<le> \<bar>?v\<bar>" by simp
  show ?thesis
    using False fin close by (simp add: round64_def Let_def)
qed

lemma round64_bounded:
  assumes "\<bar>r\<bar> \<le> 2 ^ n" and "n \<le> 1022"
  shows "\<exists>v. round64 r = Some v \<and> \<bar>v\<bar> \<le> 2 ^ Suc n"
proof -
  have n1023: "(2::real) ^ n \<le> 2 ^ 1023"
    using assms(2) by (intro power_increasing) simp_all
  then have "\<bar>r\<bar> \<le> 2 ^ 1023" using assms(1) by linarith
  then obtain v where v: "round64 r = Some v"
    and err: "\<bar>v - r\<bar> \<le> \<bar>r\<bar> / 2 ^ 53 + 1 / 2 ^ 1075"
    using round64_error by blast
  have "\<bar>r\<bar> / 2 ^ 53 \<le> \<bar>r\<bar> / 2"
    by (intro divide_left_mono) simp_all
  moreover have "(1::real) / 2 ^ 1075 \<le> 1 / 2"
  proof -
    have "(2::real) ^ 1 \<le> 2 ^ 1075" by (intro power_increasing) simp_all
    then show ?thesis by (simp add: field_simps)
  qed
  moreover have "(1::real) \<le> 2 ^ n" by simp
  ultimately have "\<bar>v\<bar> \<le> 2 * 2 ^ n"
    using err assms(1) by linarith
  then show ?thesis using v by simp
qed

lemma pow_le_1023: "n \<le> 1023 \<Longrightarrow> (2::real) ^ n \<le> 2 ^ 1023"
  by (intro power_increasing) simp_all

text \<open>One coordinate: the quotient by an integer tile size, its floor, and the way back.\<close>

lemma tile_coordinate:
  fixes t :: int and x :: real
  assumes "0 < t" and "t \<le> 2 ^ 51" and "\<bar>x\<bar> \<le> 2 ^ 51"
  shows "\<exists>q. js_div x (of_int t) = Some q
           \<and> \<bar>\<lfloor>q\<rfloor>\<bar> < 2 ^ 53
           \<and> js_mul (Math_floor q) (of_int t) = Some (of_int (\<lfloor>q\<rfloor> * t))
           \<and> isDouble (of_int (\<lfloor>q\<rfloor> * t))
           \<and> js_div (of_int (\<lfloor>q\<rfloor> * t)) (of_int t) = Some (of_int \<lfloor>q\<rfloor>)"
proof -
  let ?r = "x / of_int t"
  have t1: "(1::real) \<le> of_int t" using assms(1) by simp
  have tpos: "(0::real) < of_int t" using assms(1) by simp
  have rx: "\<bar>?r\<bar> * of_int t = \<bar>x\<bar>" using tpos by (simp add: abs_if field_simps)
  have r_le: "\<bar>?r\<bar> \<le> \<bar>x\<bar>"
  proof -
    have "\<bar>?r\<bar> * 1 \<le> \<bar>?r\<bar> * of_int t" using t1 by (intro mult_left_mono) simp_all
    then show ?thesis using rx by simp
  qed
  have "\<bar>?r\<bar> \<le> 2 ^ 1023"
  proof -
    have "(2::real) ^ 51 \<le> 2 ^ 1023" by (rule pow_le_1023) simp
    then show ?thesis using r_le assms(3) by linarith
  qed
  then obtain q where q: "round64 ?r = Some q"
    and err: "\<bar>q - ?r\<bar> \<le> \<bar>?r\<bar> / 2 ^ 53 + 1 / 2 ^ 1075"
    using round64_error by blast
  have "\<bar>?r\<bar> / 2 ^ 53 \<le> 2 ^ 51 / 2 ^ 53"
    using r_le assms(3) by (intro divide_right_mono) simp_all
  moreover have "(1::real) / 2 ^ 1075 \<le> 1 / 4"
  proof -
    have "(2::real) ^ 2 \<le> 2 ^ 1075" by (intro power_increasing) simp_all
    then show ?thesis by (simp add: field_simps)
  qed
  ultimately have close: "\<bar>q - ?r\<bar> \<le> 1 / 2"
    using err by simp
  let ?j = "\<lfloor>q\<rfloor>"
  have j: "\<bar>of_int ?j :: real\<bar> \<le> \<bar>?r\<bar> + 3 / 2"
    using close by linarith
  have "\<bar>of_int ?j :: real\<bar> * of_int t \<le> (\<bar>?r\<bar> + 3 / 2) * of_int t"
    using j tpos by (intro mult_right_mono) simp_all
  also have "\<dots> = \<bar>x\<bar> + 3 / 2 * of_int t"
    using rx by (simp add: algebra_simps)
  also have "\<dots> \<le> 2 ^ 51 + 3 / 2 * 2 ^ 51"
    using assms(2,3) by (simp add: of_int_le_numeral_power_cancel_iff)
  also have "\<dots> < 2 ^ 53" by simp
  finally have jt_real: "\<bar>of_int ?j :: real\<bar> * of_int t < 2 ^ 53" .
  have "(of_int \<bar>?j * t\<bar> :: real) = \<bar>of_int ?j :: real\<bar> * of_int t"
    using assms(1) by (simp add: abs_mult)
  then have "(of_int \<bar>?j * t\<bar> :: real) < 2 ^ 53"
    using jt_real by simp
  then have jt: "\<bar>?j * t\<bar> < 2 ^ 53"
    by (simp only: of_int_less_numeral_power_cancel_iff)
  have "\<bar>?j\<bar> * 1 \<le> \<bar>?j\<bar> * t"
    using assms(1) by (intro mult_left_mono) simp_all
  moreover have "\<bar>?j * t\<bar> = \<bar>?j\<bar> * t"
    using assms(1) by (simp add: abs_mult)
  ultimately have j53: "\<bar>?j\<bar> < 2 ^ 53"
    using jt by linarith
  have quot: "js_div x (of_int t) = Some q"
    using q assms(1) by (simp add: js_div_def)
  have exact: "round64 (of_int (?j * t)) = Some (of_int (?j * t))"
    using jt by (rule round64_of_int)
  then have times: "js_mul (Math_floor q) (of_int t) = Some (of_int (?j * t))"
    by (simp add: js_mul_def Math_floor_def)
  have "(of_int (?j * t) :: real) / of_int t = of_int ?j"
    using assms(1) by simp
  then have way_back: "js_div (of_int (?j * t)) (of_int t) = Some (of_int ?j)"
    using assms(1) round64_of_int [OF j53] by (simp add: js_div_def)
  show ?thesis
    using quot j53 times exact way_back unfolding isDouble_def by blast
qed

lemma round64_0: "round64 0 = Some 0"
  by (simp add: round64_def)

lemma double_4_7: "round64 (47 / 10) = Some (5291729562160333 / 1125899906842624)"
  by (subst round64_normal [where e = 2]) (simp_all add: roundEven_def overflowThreshold_def)

lemma quotient_33:
  "round64 (33 / (5291729562160333 / 1125899906842624)) = Some (494078416566577 / 70368744177664)"
  by (subst round64_normal [where e = 2]) (simp_all add: roundEven_def overflowThreshold_def)

lemma product_7:
  "round64 (7 * (5291729562160333 / 1125899906842624)) = Some (4630263366890291 / 140737488355328)"
  by (subst round64_normal [where e = 5]) (simp_all add: roundEven_def overflowThreshold_def)

lemma quotient_origin:
  "round64 (4630263366890291 / 140737488355328 / (5291729562160333 / 1125899906842624)) =
     Some (7881299347898367 / 1125899906842624)"
  by (subst round64_normal [where e = 2]) (simp_all add: roundEven_def overflowThreshold_def)

lemma round64_6: "round64 6 = Some 6" and round64_7: "round64 7 = Some 7"
  using round64_of_int [of 6] round64_of_int [of 7] by simp_all

section \<open>Properties of the tile lookup\<close>

lemma layerStep_includedCell:
  "layerStep isect m i zr acc layer = acc @ includedCell isect m i zr layer"
  by (simp add: layerStep_def includedCell_def cellIncluded_def effectiveDepth_def Let_def
      split: option.splits)

lemma collectTiles_append:
  "collectTiles isect m i zr acc ls = acc @ concat (map (includedCell isect m i zr) ls)"
  by (induction ls arbitrary: acc) (simp_all add: layerStep_includedCell)

lemma tiles_getTileByIndex:
  "tiles (getTileByIndex isect m i zr) = includedCells isect m i zr"
  by (simp add: getTileByIndex_def includedCells_def collectTiles_append Let_def)

lemma getTileByIndex_includedCells:
  "getTileByIndex isect m i zr =
     (if includedCells isect m i zr = [] then
        \<lparr>tiles = [], hasCollision = Some True, isClimbable = None,
         isOverlay = Some False, objectGroups = []\<rparr>
      else
        \<lparr>tiles = includedCells isect m i zr,
         hasCollision = prop_collision (tile_properties (last (includedCells isect m i zr))),
         isClimbable = prop_climb (tile_properties (last (includedCells isect m i zr))),
         isOverlay = prop_overlay (tile_properties (last (includedCells isect m i zr))),
         objectGroups = tile_objectGroups (last (includedCells isect m i zr))\<rparr>)"
  by (simp add: getTileByIndex_def includedCells_def collectTiles_append Let_def)


lemmas stacked_defs =
  stackedMap_def lowLayer_def highLayer_def lowCell_def highCell_def emptyProperties_def

lemma stacked_included_boundary:
  "includedCells intersection stackedMap 0 (0, 32) = [lowCell, highCell]"
  by (simp add: includedCells_def includedCell_def cellIncluded_def effectiveDepth_def
      tileAt_def intersection_def stacked_defs)

lemma stacked_included_void:
  "includedCells intersection stackedMap 5 (0, 0) = []"
  by (simp add: includedCells_def includedCell_def tileAt_def stacked_defs)

text \<open>
  C1. Whatever the overlap test is: when the query includes at least one cell, the flags
  and the object groups of the result are those of the last included cell in layer
  order, and \<open>tiles\<close> are the included cells; when it includes none, the result has
  \<open>hasCollision = true\<close>, \<open>tiles = []\<close>, \<open>isOverlay = false\<close> and
  \<open>objectGroups = []\<close>.
\<close>

theorem getTileByIndex_last_included_wins:
  "(includedCells isect m i zr \<noteq> [] \<longrightarrow>
      tiles (getTileByIndex isect m i zr) = includedCells isect m i zr \<and>
      hasCollision (getTileByIndex isect m i zr) =
        prop_collision (tile_properties (last (includedCells isect m i zr))) \<and>
      isOverlay (getTileByIndex isect m i zr) =
        prop_overlay (tile_properties (last (includedCells isect m i zr))) \<and>
      isClimbable (getTileByIndex isect m i zr) =
        prop_climb (tile_properties (last (includedCells isect m i zr))) \<and>
      objectGroups (getTileByIndex isect m i zr) =
        tile_objectGroups (last (includedCells isect m i zr))) \<and>
   (includedCells isect m i zr = [] \<longrightarrow>
      hasCollision (getTileByIndex isect m i zr) = Some True \<and>
      tiles (getTileByIndex isect m i zr) = [] \<and>
      isOverlay (getTileByIndex isect m i zr) = Some False \<and>
      objectGroups (getTileByIndex isect m i zr) = [])"
  by (simp add: getTileByIndex_includedCells)

theorem getTileByIndex_last_included_wins_witness:
  "includedCells intersection stackedMap 0 (0, 32) \<noteq> [] \<and>
   last (includedCells intersection stackedMap 0 (0, 32)) = highCell \<and>
   hasCollision (getTileByIndex intersection stackedMap 0 (0, 32)) = Some True \<and>
   isOverlay (getTileByIndex intersection stackedMap 0 (0, 32)) = Some True \<and>
   isClimbable (getTileByIndex intersection stackedMap 0 (0, 32)) = Some True \<and>
   objectGroups (getTileByIndex intersection stackedMap 0 (0, 32)) = tile_objectGroups highCell \<and>
   includedCells intersection stackedMap 5 (0, 0) = [] \<and>
   hasCollision (getTileByIndex intersection stackedMap 5 (0, 0)) = Some True \<and>
   tiles (getTileByIndex intersection stackedMap 5 (0, 0)) = []"
  using getTileByIndex_last_included_wins [of intersection stackedMap 0 "(0, 32)"]
        getTileByIndex_last_included_wins [of intersection stackedMap 5 "(0, 0)"]
  by (simp add: stacked_included_boundary stacked_included_void highCell_def emptyProperties_def)





text \<open>
  C4, as stated, fails for a tile size that is not an integer: the product
  \<open>Math.floor(x / tileWidth) * tileWidth\<close> is rounded. With the tile width
  \<open>4.7\<close> and \<open>x = 33\<close>, a position inside the map, the origin is the double
  below \<open>32.9\<close>, whose quotient by \<open>4.7\<close> is below 7: the index of the origin is
  6, the index of the position is 7.
\<close>

theorem origin_roundtrip_counterexample:
  "round64 (47 / 10) = Some (tileWidth fractionalMap) \<and>
   0 < tileWidth fractionalMap \<and> 0 < tileHeight fractionalMap \<and>
   isDouble 33 \<and> isDouble 0 \<and>
   33 < of_int (width fractionalMap) * tileWidth fractionalMap \<and>
   0 < of_int (height fractionalMap) * tileHeight fractionalMap \<and>
   getTileOriginPosition fractionalMap 33 0 =
     \<lparr>point_x = Some (4630263366890291 / 140737488355328), point_y = Some 0\<rparr> \<and>
   getTileIndex fractionalMap (4630263366890291 / 140737488355328) 0 0 = Some 6 \<and>
   getTileIndex fractionalMap 33 0 0 = Some 7"
proof -
  have d33: "isDouble 33" and d0: "isDouble 0"
    using round64_of_int [of 33] by (simp_all add: isDouble_def round64_0)
  have origin: "getTileOriginPosition fractionalMap 33 0 =
     \<lparr>point_x = Some (4630263366890291 / 140737488355328), point_y = Some 0\<rparr>"
    using quotient_33 product_7
    by (simp add: getTileOriginPosition_def fractionalMap_def stackedMap_def js_div_def js_mul_def Math_floor_def
        round64_0)
  have at_origin: "getTileIndex fractionalMap (4630263366890291 / 140737488355328) 0 0 = Some 6"
    using quotient_origin round64_6
    by (simp add: getTileIndex_def fractionalMap_def stackedMap_def js_div_def js_mul_def js_sub_def js_add_def
        Math_floor_def round64_0)
  have at_position: "getTileIndex fractionalMap 33 0 0 = Some 7"
    using quotient_33 round64_7
    by (simp add: getTileIndex_def fractionalMap_def stackedMap_def js_div_def js_mul_def js_sub_def js_add_def
        Math_floor_def round64_0)
  show ?thesis
    using double_4_7 d33 d0 origin at_origin at_position
    by (simp add: fractionalMap_def stackedMap_def)
qed

text \<open>
  C4, amended. On a map whose tile width and tile height are positive integers (up to
  \<open>2^51\<close>), for doubles \<open>x\<close> and \<open>y\<close> of magnitude up to \<open>2^51\<close> and a
  width of magnitude up to \<open>2^53\<close>: the origin of the tile has finite coordinates, and
  the tile index of the origin is the tile index of the position (default offset 0), a
  finite number.
\<close>

theorem getTileIndex_origin_roundtrip:
  assumes "tileWidth m = of_int tw" and "0 < tw" and "tw \<le> 2 ^ 51"
      and "tileHeight m = of_int th" and "0 < th" and "th \<le> 2 ^ 51"
      and "isDouble x" and "\<bar>x\<bar> \<le> 2 ^ 51"
      and "isDouble y" and "\<bar>y\<bar> \<le> 2 ^ 51"
      and "\<bar>width m\<bar> \<le> 2 ^ 53"
  shows "\<exists>ox oy i. getTileOriginPosition m x y = \<lparr>point_x = Some ox, point_y = Some oy\<rparr>
           \<and> getTileIndex m ox oy 0 = Some i \<and> getTileIndex m x y 0 = Some i"
proof -
  obtain col where col: "js_div x (of_int tw) = Some col"
    and j53: "\<bar>\<lfloor>col\<rfloor>\<bar> < 2 ^ 53"
    and ox: "js_mul (Math_floor col) (of_int tw) = Some (of_int (\<lfloor>col\<rfloor> * tw))"
    and col_back: "js_div (of_int (\<lfloor>col\<rfloor> * tw)) (of_int tw) = Some (of_int \<lfloor>col\<rfloor>)"
    using tile_coordinate [OF assms(2,3,8)] by blast
  obtain row where row: "js_div y (of_int th) = Some row"
    and k53: "\<bar>\<lfloor>row\<rfloor>\<bar> < 2 ^ 53"
    and oy: "js_mul (Math_floor row) (of_int th) = Some (of_int (\<lfloor>row\<rfloor> * th))"
    and oy_double: "isDouble (of_int (\<lfloor>row\<rfloor> * th))"
    and row_back: "js_div (of_int (\<lfloor>row\<rfloor> * th)) (of_int th) = Some (of_int \<lfloor>row\<rfloor>)"
    using tile_coordinate [OF assms(5,6,10)] by blast
  let ?j = "\<lfloor>col\<rfloor>" and ?k = "\<lfloor>row\<rfloor>"
  have "\<bar>width m * ?k\<bar> \<le> 2 ^ 53 * 2 ^ 53"
    unfolding abs_mult using assms(11) k53 by (intro mult_mono) simp_all
  then have "\<bar>width m * ?k\<bar> \<le> 2 ^ 106"
    by simp
  then have "\<bar>of_int (width m * ?k) :: real\<bar> \<le> 2 ^ 106"
    by (metis of_int_abs of_int_le_numeral_power_cancel_iff)
  then obtain base where base: "round64 (of_int (width m * ?k)) = Some base"
    and base_le: "\<bar>base\<bar> \<le> 2 ^ 107"
    using round64_bounded [of "of_int (width m * ?k)" 106] by auto
  have "\<bar>of_int ?j :: real\<bar> \<le> 2 ^ 107"
  proof -
    have "\<bar>of_int ?j :: real\<bar> < 2 ^ 53"
      using j53 by (metis of_int_abs of_int_less_numeral_power_cancel_iff)
    moreover have "(2::real) ^ 53 \<le> 2 ^ 107" by (intro power_increasing) simp_all
    ultimately show ?thesis by linarith
  qed
  then have "\<bar>base + of_int ?j\<bar> \<le> 2 ^ 108"
    using base_le by simp
  then obtain i where i: "round64 (base + of_int ?j) = Some i"
    using round64_bounded [of "base + of_int ?j" 108] by auto
  have row_mul: "js_mul (of_int (width m)) (of_int ?k) = Some base"
    using base by (simp add: js_mul_def)
  have sum: "js_add base (of_int ?j) = Some i"
    using i by (simp add: js_add_def)
  have origin: "getTileOriginPosition m x y =
      \<lparr>point_x = Some (of_int (?j * tw)), point_y = Some (of_int (?k * th))\<rparr>"
    using col ox row oy by (simp add: getTileOriginPosition_def assms(1,4))
  have y0: "js_sub y 0 = Some y"
    using assms(9) by (simp add: js_sub_def isDouble_def)
  have oy0: "js_sub (of_int (?k * th)) 0 = Some (of_int (?k * th))"
    using oy_double by (simp add: js_sub_def isDouble_def)
  have at_position: "getTileIndex m x y 0 = Some i"
    using y0 row row_mul col sum
    by (simp add: getTileIndex_def assms(1,4) Math_floor_def)
  have at_origin: "getTileIndex m (of_int (?j * tw)) (of_int (?k * th)) 0 = Some i"
    using oy0 row_back row_mul col_back sum
    by (simp add: getTileIndex_def assms(1,4) Math_floor_def)
  show ?thesis
    using origin at_origin at_position by blast
qed

theorem getTileIndex_origin_roundtrip_witness:
  "tileWidth (stackedMap\<lparr>width := 10, height := 10, tileHeight := 16\<rparr>) = of_int 32 \<and>
   tileHeight (stackedMap\<lparr>width := 10, height := 10, tileHeight := 16\<rparr>) = of_int 16 \<and>
   (0::int) < 32 \<and> (32::int) \<le> 2 ^ 51 \<and> (0::int) < 16 \<and> (16::int) \<le> 2 ^ 51 \<and>
   isDouble 35 \<and> \<bar>35::real\<bar> \<le> 2 ^ 51 \<and> isDouble 50 \<and> \<bar>50::real\<bar> \<le> 2 ^ 51 \<and>
   \<bar>width (stackedMap\<lparr>width := 10, height := 10, tileHeight := 16\<rparr>)\<bar> \<le> 2 ^ 53 \<and>
   getTileOriginPosition (stackedMap\<lparr>width := 10, height := 10, tileHeight := 16\<rparr>) 35 50 =
     \<lparr>point_x = Some 32, point_y = Some 48\<rparr> \<and>
   getTileIndex (stackedMap\<lparr>width := 10, height := 10, tileHeight := 16\<rparr>) 32 48 0 =
     getTileIndex (stackedMap\<lparr>width := 10, height := 10, tileHeight := 16\<rparr>) 35 50 0 \<and>
   getTileIndex (stackedMap\<lparr>width := 10, height := 10, tileHeight := 16\<rparr>) 35 50 0 = Some 31"
proof -
  let ?m = "stackedMap\<lparr>width := 10, height := 10, tileHeight := 16\<rparr>"
  have tw: "tileWidth ?m = of_int 32" and th: "tileHeight ?m = of_int 16"
    by (simp_all add: stackedMap_def)
  have pos_w: "(0::int) < 32" and small_w: "(32::int) \<le> 2 ^ 51"
    and pos_h: "(0::int) < 16" and small_h: "(16::int) \<le> 2 ^ 51"
    by simp_all
  have dx: "isDouble 35" and dy: "isDouble 50"
    using round64_of_int [of 35] round64_of_int [of 50] by (simp_all add: isDouble_def)
  have in_x: "\<bar>35::real\<bar> \<le> 2 ^ 51" and in_y: "\<bar>50::real\<bar> \<le> 2 ^ 51"
    by simp_all
  have w: "\<bar>width ?m\<bar> \<le> 2 ^ 53"
    by simp
  have col: "round64 (35 / 32) = Some (35 / 32)"
    by (subst round64_normal [where e = 0]) (simp_all add: roundEven_def overflowThreshold_def)
  have row: "round64 (25 / 8) = Some (25 / 8)"
    by (subst round64_normal [where e = 1]) (simp_all add: roundEven_def overflowThreshold_def)
  have ints: "round64 32 = Some 32" "round64 48 = Some 48" "round64 30 = Some 30"
             "round64 31 = Some 31" "round64 50 = Some 50"
    using round64_of_int [of 32] round64_of_int [of 48] round64_of_int [of 30]
          round64_of_int [of 31] round64_of_int [of 50]
    by simp_all
  have origin: "getTileOriginPosition ?m 35 50 = \<lparr>point_x = Some 32, point_y = Some 48\<rparr>"
    using col row ints
    by (simp add: getTileOriginPosition_def stackedMap_def js_div_def js_mul_def Math_floor_def)
  have index: "getTileIndex ?m 35 50 0 = Some 31"
    using col row ints
    by (simp add: getTileIndex_def stackedMap_def js_div_def js_mul_def js_sub_def js_add_def
        Math_floor_def)
  obtain ox oy i where
    "getTileOriginPosition ?m 35 50 = \<lparr>point_x = Some ox, point_y = Some oy\<rparr>"
    and "getTileIndex ?m ox oy 0 = Some i" and "getTileIndex ?m 35 50 0 = Some i"
    using getTileIndex_origin_roundtrip
            [OF tw pos_w small_w th pos_h small_h dx in_x dy in_y w]
    by blast
  then have same: "getTileIndex ?m 32 48 0 = getTileIndex ?m 35 50 0"
    using origin by simp
  show ?thesis
    using tw th pos_w small_w pos_h small_h dx in_x dy in_y w origin same index by blast
qed

section \<open>Properties of the shape registry\<close>


lemma createShape_map:
  "fst (snd (createShape g obj s)) = (fst s)\<lparr>shapes := shapes (fst s) @ [nextRef (snd s)]\<rparr>"
  by (simp add: createShape_def Let_def)

lemma createShape_world:
  "snd (snd (createShape g obj s)) =
     (snd s)\<lparr>hitObjects := (hitObjects (snd s))
                 (obj := completed (g (uidCalls (snd s))) (hitObjects (snd s) obj)),
              rpgShapes := (rpgShapes (snd s))
                 (nextRef (snd s) :=
                    newRpgShape (completed (g (uidCalls (snd s))) (hitObjects (snd s) obj))),
              nextRef := Suc (nextRef (snd s)),
              uidCalls := (if lacksName (hitObjects (snd s) obj) then Suc (uidCalls (snd s))
                           else uidCalls (snd s))\<rparr>"
  by (simp add: createShape_def Let_def completed_def)

lemma createShapes_append:
  "createShapes g (xs @ ys) s = createShapes g ys (createShapes g xs s)"
  by (induction xs arbitrary: s) simp_all

lemma extractLayers_createShapes:
  "extractLayers g ls s =
     createShapes g (concat (map layer_objects (filter (\<lambda>layer. layer_type layer = ''object'') ls))) s"
  by (induction ls arbitrary: s) (simp_all add: createShapes_append)

lemma load_createShapes:
  "load g dat (m, w) =
     createShapes g (documentObjects dat)
       (m\<lparr>data := Some dat, width := data_width dat, tileWidth := data_tileWidth dat,
          tileHeight := data_tileHeight dat, height := data_height dat,
          layers := data_layers dat\<rparr>, w)"
  by (simp add: load_def extractShapes_def extractLayers_createShapes documentObjects_def)

lemma upt_head: "[n ..< Suc (n + k)] = n # [Suc n ..< Suc (n + k)]"
  by (simp add: upt_conv_Cons)

lemma createShapes_map:
  "fst (createShapes g refs s) =
     (fst s)\<lparr>shapes := shapes (fst s) @ [nextRef (snd s) ..< nextRef (snd s) + length refs]\<rparr>"
proof (induction refs arbitrary: s)
  case Nil
  show ?case by simp
next
  case (Cons obj rest)
  show ?case
    by (simp add: Cons.IH createShape_map createShape_world upt_head del: upt_Suc)
qed

lemma createShapes_nextRef:
  "nextRef (snd (createShapes g refs s)) = nextRef (snd s) + length refs"
  by (induction refs arbitrary: s) (simp_all add: createShape_world)

lemma createShapes_old_shapes:
  "r < nextRef (snd s) \<Longrightarrow> rpgShapes (snd (createShapes g refs s)) r = rpgShapes (snd s) r"
  by (induction refs arbitrary: s) (simp_all add: createShape_world)

lemma createShapes_other_objects:
  "a \<notin> set refs \<Longrightarrow> hitObjects (snd (createShapes g refs s)) a = hitObjects (snd s) a"
  by (induction refs arbitrary: s) (auto simp add: createShape_world)

lemma createShape_uidCalls:
  "uidCalls (snd (snd (createShape g obj s))) =
     (if lacksName (hitObjects (snd s) obj) then Suc (uidCalls (snd s)) else uidCalls (snd s))"
  by (simp add: createShape_world)

lemma createShape_nextRef: "nextRef (snd (snd (createShape g obj s))) = Suc (nextRef (snd s))"
  by (simp add: createShape_world)

lemma createShape_other_objects:
  "obj \<notin> set rest \<Longrightarrow>
   map (hitObjects (snd (snd (createShape g obj s)))) rest = map (hitObjects (snd s)) rest"
  by (auto simp: createShape_world)

lemma createShapes_objects:
  "distinct refs \<Longrightarrow>
   map (hitObjects (snd (createShapes g refs s))) refs =
     assignNames g (uidCalls (snd s)) (map (hitObjects (snd s)) refs)"
proof (induction refs arbitrary: s)
  case Nil
  show ?case by simp
next
  case (Cons obj rest)
  let ?s1 = "snd (createShape g obj s)"
  have d: "distinct rest" and nin: "obj \<notin> set rest" using Cons.prems by simp_all
  have head: "hitObjects (snd (createShapes g rest ?s1)) obj =
                completed (g (uidCalls (snd s))) (hitObjects (snd s) obj)"
    using nin by (simp add: createShapes_other_objects createShape_world)
  have "map (hitObjects (snd (createShapes g rest ?s1))) rest =
          assignNames g (uidCalls (snd ?s1)) (map (hitObjects (snd s)) rest)"
    using Cons.IH [OF d, of ?s1] by (simp only: createShape_other_objects [OF nin])
  then show ?case
    using head by (simp add: createShape_uidCalls)
qed

lemma createShapes_new_shapes:
  "distinct refs \<Longrightarrow>
   map (rpgShapes (snd (createShapes g refs s))) [nextRef (snd s) ..< nextRef (snd s) + length refs] =
     map newRpgShape (assignNames g (uidCalls (snd s)) (map (hitObjects (snd s)) refs))"
proof (induction refs arbitrary: s)
  case Nil
  show ?case by simp
next
  case (Cons obj rest)
  let ?s1 = "snd (createShape g obj s)"
  have d: "distinct rest" and nin: "obj \<notin> set rest" using Cons.prems by simp_all
  have head: "rpgShapes (snd (createShapes g rest ?s1)) (nextRef (snd s)) =
                newRpgShape (completed (g (uidCalls (snd s))) (hitObjects (snd s) obj))"
    by (simp add: createShapes_old_shapes createShape_world)
  have "map (rpgShapes (snd (createShapes g rest ?s1)))
          [nextRef (snd ?s1) ..< nextRef (snd ?s1) + length rest] =
        map newRpgShape (assignNames g (uidCalls (snd ?s1)) (map (hitObjects (snd s)) rest))"
    using Cons.IH [OF d, of ?s1] by (simp only: createShape_other_objects [OF nin])
  then show ?case
    using head by (simp add: createShape_uidCalls createShape_nextRef upt_head del: upt_Suc)
qed

lemma assignNames_length: "length (assignNames g c objs) = length objs"
  by (induction objs arbitrary: c) simp_all

lemma assignNames_nth:
  "i < length objs \<Longrightarrow>
   assignNames g c objs ! i =
     completed (g (c + length (filter lacksName (take i objs)))) (objs ! i)"
proof (induction objs arbitrary: c i)
  case Nil
  then show ?case by simp
next
  case (Cons obj rest)
  show ?case
  proof (cases i)
    case 0
    then show ?thesis by simp
  next
    case (Suc j)
    then have "j < length rest" using Cons.prems by simp
    then show ?thesis using Suc by (simp add: Cons.IH)
  qed
qed

lemma filter_take_mono:
  assumes "i < j" and "j \<le> length xs" and "P (xs ! i)"
  shows "length (filter P (take i xs)) < length (filter P (take j xs))"
proof -
  obtain k where j: "j = i + Suc k"
    using assms(1) less_imp_Suc_add by auto
  have "i < length xs" using assms(1,2) by simp
  then have "drop i xs = xs ! i # drop (Suc i) xs"
    by (simp add: Cons_nth_drop_Suc)
  moreover have "take j xs = take i xs @ take (Suc k) (drop i xs)"
    unfolding j by (rule take_add)
  ultimately have "take j xs = take i xs @ xs ! i # take k (drop (Suc i) xs)"
    by simp
  then show ?thesis using assms(3) by simp
qed






lemma createShapes_nth_object:
  assumes "distinct refs" and "i < length refs"
  shows "hitObjects (snd (createShapes g refs s)) (refs ! i) =
           completed (g (uidCalls (snd s) +
                         length (filter lacksName (map (hitObjects (snd s)) (take i refs)))))
             (hitObjects (snd s) (refs ! i))"
proof -
  have "hitObjects (snd (createShapes g refs s)) (refs ! i) =
          map (hitObjects (snd (createShapes g refs s))) refs ! i"
    using assms(2) by simp
  also have "\<dots> = assignNames g (uidCalls (snd s)) (map (hitObjects (snd s)) refs) ! i"
    using createShapes_objects [OF assms(1)] by simp
  also have "\<dots> = completed (g (uidCalls (snd s) +
                         length (filter lacksName (take i (map (hitObjects (snd s)) refs)))))
                       (map (hitObjects (snd s)) refs ! i)"
    using assms(2) by (simp add: assignNames_nth)
  finally show ?thesis
    using assms(2) by (simp add: take_map)
qed

lemma createShapes_nth_shape:
  assumes "distinct refs" and "i < length refs"
  shows "rpgShapes (snd (createShapes g refs s)) (nextRef (snd s) + i) =
           newRpgShape (hitObjects (snd (createShapes g refs s)) (refs ! i))"
proof -
  have "rpgShapes (snd (createShapes g refs s)) (nextRef (snd s) + i) =
          map (rpgShapes (snd (createShapes g refs s)))
            [nextRef (snd s) ..< nextRef (snd s) + length refs] ! i"
    using assms(2) by simp
  also have "\<dots> = map newRpgShape
                      (assignNames g (uidCalls (snd s)) (map (hitObjects (snd s)) refs)) ! i"
    using createShapes_new_shapes [OF assms(1)] by simp
  also have "\<dots> = map newRpgShape (map (hitObjects (snd (createShapes g refs s))) refs) ! i"
    using createShapes_objects [OF assms(1)] by simp
  finally show ?thesis
    using assms(2) by simp
qed

lemma completed_name:
  "obj_name (completed n obj) = Some (if lacksName obj then n else the (obj_name obj))"
  by (simp add: completed_def)

lemma createShapes_generated_distinct:
  assumes "distinct refs" and "inj g" and "i < j" and "j < length refs"
      and "lacksName (hitObjects (snd s) (refs ! i))"
      and "lacksName (hitObjects (snd s) (refs ! j))"
  shows "shape_name (rpgShapes (snd (createShapes g refs s)) (nextRef (snd s) + i)) \<noteq>
         shape_name (rpgShapes (snd (createShapes g refs s)) (nextRef (snd s) + j))"
proof -
  let ?objs = "map (hitObjects (snd s)) refs"
  have i: "i < length refs" using assms(3,4) by simp
  have "lacksName (?objs ! i)" using assms(5) i by simp
  then have "length (filter lacksName (take i ?objs)) < length (filter lacksName (take j ?objs))"
    using assms(3,4) by (intro filter_take_mono) simp_all
  then have "g (uidCalls (snd s) + length (filter lacksName (take i ?objs))) \<noteq>
             g (uidCalls (snd s) + length (filter lacksName (take j ?objs)))"
    using assms(2) by (simp add: inj_eq)
  then show ?thesis
    using assms(5,6)
    by (simp add: createShapes_nth_shape [OF assms(1) i] createShapes_nth_shape [OF assms(1,4)]
        createShapes_nth_object [OF assms(1) i] createShapes_nth_object [OF assms(1,4)]
        newRpgShape_def completed_name take_map)
qed

lemma registryAllocated_new: "registryAllocated (newRpgCommonMap, w)"
  by (simp add: registryAllocated_def newRpgCommonMap_def)

lemma registryAllocated_createShape:
  "registryAllocated s \<Longrightarrow> registryAllocated (snd (createShape g obj s))"
  by (auto simp add: registryAllocated_def list_all_iff createShape_map createShape_world)

lemma registryAllocated_removeShape:
  "registryAllocated s \<Longrightarrow> registryAllocated (removeShape name s)"
  by (simp add: registryAllocated_def list_all_iff removeShape_def)

lemma registryAllocated_createShapes:
  "registryAllocated s \<Longrightarrow> registryAllocated (createShapes g refs s)"
  by (induction refs arbitrary: s) (simp_all add: registryAllocated_createShape)

lemma registryAllocated_load:
  "registryAllocated (m, w) \<Longrightarrow> registryAllocated (load g dat (m, w))"
  unfolding load_createShapes
  by (rule registryAllocated_createShapes) (simp add: registryAllocated_def)

text \<open>A registry built by these operations holds no reference twice.\<close>

lemma distinct_createShape:
  "registryAllocated s \<Longrightarrow> distinct (shapes (fst s)) \<Longrightarrow>
   distinct (shapes (fst (snd (createShape g obj s))))"
  by (auto simp add: registryAllocated_def list_all_iff createShape_map)

lemma distinct_removeShape:
  "distinct (shapes (fst s)) \<Longrightarrow> distinct (shapes (fst (removeShape name s)))"
  by (simp add: removeShape_def)

lemma distinct_createShapes:
  "registryAllocated s \<Longrightarrow> distinct (shapes (fst s)) \<Longrightarrow>
   distinct (shapes (fst (createShapes g refs s)))"
  by (induction refs arbitrary: s)
     (simp_all add: registryAllocated_createShape distinct_createShape)

lemma distinct_load:
  "registryAllocated (m, w) \<Longrightarrow> distinct (shapes m) \<Longrightarrow>
   distinct (shapes (fst (load g dat (m, w))))"
  unfolding load_createShapes
  by (rule distinct_createShapes) (simp_all add: registryAllocated_def)











text \<open>
  C7. When no raw object occurs twice in the object layers of the document, \<open>load\<close>
  appends to the registry one new shape per object of the layers of type \<open>object\<close>,
  in document order, and nothing else; the shape is built from the object as
  \<open>createShape\<close> leaves it, that is with the value of the next call of
  \<open>generateUID\<close> as its name when it lacked one; when \<open>generateUID\<close> never
  repeats a value, the generated names differ from each other; the shapes allocated
  before are untouched.
\<close>

theorem load_extracts_shapes:
  assumes "distinct (documentObjects dat)"
  shows "shapes (fst (load g dat (m, w))) =
           shapes m @ [nextRef w ..< nextRef w + length (documentObjects dat)]
       \<and> (\<forall>i < length (documentObjects dat).
            rpgShapes (snd (load g dat (m, w))) (nextRef w + i) =
              newRpgShape (hitObjects (snd (load g dat (m, w))) (documentObjects dat ! i))
            \<and> hitObjects (snd (load g dat (m, w))) (documentObjects dat ! i) =
                completed
                  (g (uidCalls w +
                      length (filter lacksName
                               (map (hitObjects w) (take i (documentObjects dat))))))
                  (hitObjects w (documentObjects dat ! i)))
       \<and> (inj g \<longrightarrow>
            (\<forall>i j. i < j \<and> j < length (documentObjects dat)
                 \<and> lacksName (hitObjects w (documentObjects dat ! i))
                 \<and> lacksName (hitObjects w (documentObjects dat ! j)) \<longrightarrow>
               shape_name (rpgShapes (snd (load g dat (m, w))) (nextRef w + i)) \<noteq>
               shape_name (rpgShapes (snd (load g dat (m, w))) (nextRef w + j))))
       \<and> (\<forall>r < nextRef w. rpgShapes (snd (load g dat (m, w))) r = rpgShapes w r)"
proof -
  let ?s0 = "(m\<lparr>data := Some dat, width := data_width dat, tileWidth := data_tileWidth dat,
                 tileHeight := data_tileHeight dat, height := data_height dat,
                 layers := data_layers dat\<rparr>, w)"
  let ?refs = "documentObjects dat"
  have ld: "load g dat (m, w) = createShapes g ?refs ?s0"
    by (rule load_createShapes)
  have next0: "nextRef (snd ?s0) = nextRef w" and calls0: "uidCalls (snd ?s0) = uidCalls w"
    and objs0: "hitObjects (snd ?s0) = hitObjects w" and shapes0: "rpgShapes (snd ?s0) = rpgShapes w"
    by simp_all
  have registry: "shapes (fst (load g dat (m, w))) = shapes m @ [nextRef w ..< nextRef w + length ?refs]"
    unfolding ld by (simp add: createShapes_map)
  have built: "\<forall>i < length ?refs.
      rpgShapes (snd (load g dat (m, w))) (nextRef w + i) =
        newRpgShape (hitObjects (snd (load g dat (m, w))) (?refs ! i))
      \<and> hitObjects (snd (load g dat (m, w))) (?refs ! i) =
          completed
            (g (uidCalls w + length (filter lacksName (map (hitObjects w) (take i ?refs)))))
            (hitObjects w (?refs ! i))"
    unfolding ld
    using createShapes_nth_shape [OF assms, of _ g ?s0] createShapes_nth_object [OF assms, of _ g ?s0]
    unfolding next0 calls0 objs0 by blast
  have unique: "inj g \<longrightarrow>
      (\<forall>i j. i < j \<and> j < length ?refs
           \<and> lacksName (hitObjects w (?refs ! i)) \<and> lacksName (hitObjects w (?refs ! j)) \<longrightarrow>
         shape_name (rpgShapes (snd (load g dat (m, w))) (nextRef w + i)) \<noteq>
         shape_name (rpgShapes (snd (load g dat (m, w))) (nextRef w + j)))"
    unfolding ld
    using createShapes_generated_distinct [OF assms, of g _ _ ?s0]
    unfolding next0 objs0 by blast
  have old: "\<forall>r < nextRef w. rpgShapes (snd (load g dat (m, w))) r = rpgShapes w r"
    unfolding ld
    using createShapes_old_shapes [of _ ?s0 g ?refs]
    unfolding next0 shapes0 by blast
  show ?thesis
    using registry built unique old by blast
qed

lemma inj_markerUID: "inj markerUID"
proof (rule injI)
  fix a b assume "markerUID a = markerUID b"
  then have "length (markerUID a) = length (markerUID b)" by simp
  then show "a = b" by (simp add: markerUID_def)
qed

lemma marker_documentObjects: "documentObjects stackedData = [0, 1, 2]"
  by (simp add: documentObjects_def stackedData_def markerLayer_def lowLayer_def highLayer_def)

theorem load_extracts_shapes_witness:
  "distinct (documentObjects stackedData) \<and> inj markerUID \<and>
   shapes (fst (load markerUID stackedData (newRpgCommonMap, markerWorld))) = [0, 1, 2] \<and>
   shape_name (rpgShapes (snd (load markerUID stackedData (newRpgCommonMap, markerWorld))) 0) = ''u'' \<and>
   shape_name (rpgShapes (snd (load markerUID stackedData (newRpgCommonMap, markerWorld))) 1) = ''start'' \<and>
   shape_name (rpgShapes (snd (load markerUID stackedData (newRpgCommonMap, markerWorld))) 2) = ''uu'' \<and>
   shape_name (rpgShapes (snd (load markerUID stackedData (newRpgCommonMap, markerWorld))) 0) \<noteq>
   shape_name (rpgShapes (snd (load markerUID stackedData (newRpgCommonMap, markerWorld))) 2)"
proof -
  let ?s = "load markerUID stackedData (newRpgCommonMap, markerWorld)"
  have d: "distinct (documentObjects stackedData)"
    by (simp add: marker_documentObjects)
  note spec = load_extracts_shapes [OF d, of markerUID newRpgCommonMap markerWorld]
  have reg: "shapes (fst ?s) = [0, 1, 2]"
    using spec [THEN conjunct1] by (simp add: marker_documentObjects markerWorld_def newRpgCommonMap_def
        numeral_3_eq_3)
  note at = spec [THEN conjunct2, THEN conjunct1, rule_format]
  have start: "nextRef markerWorld = 0" and calls: "uidCalls markerWorld = 0"
    and objs: "hitObjects markerWorld = markerObjects"
    by (simp_all add: markerWorld_def)
  have i0: "0 < length (documentObjects stackedData)"
    and i1: "1 < length (documentObjects stackedData)"
    and i2: "2 < length (documentObjects stackedData)"
    by (simp_all add: marker_documentObjects)
  have r0: "nextRef markerWorld + 0 = 0" and r1: "nextRef markerWorld + 1 = 1"
    and r2: "nextRef markerWorld + 2 = 2"
    by (simp_all add: start)
  have d0: "documentObjects stackedData ! 0 = 0" and d1: "documentObjects stackedData ! 1 = 1"
    and d2: "documentObjects stackedData ! 2 = 2"
    by (simp_all add: marker_documentObjects)
  have o0: "completed (markerUID (uidCalls markerWorld + length (filter lacksName
              (map (hitObjects markerWorld) (take 0 (documentObjects stackedData))))))
              (hitObjects markerWorld 0) =
            \<lparr>obj_x = 10, obj_y = 10, obj_width = 5, obj_height = 5, obj_name = Some ''u'',
             obj_properties = Some emptyProperties\<rparr>"
    by (simp add: calls objs completed_def lacksName_def markerObjects_def markerUID_def)
  have o1: "completed (markerUID (uidCalls markerWorld + length (filter lacksName
              (map (hitObjects markerWorld) (take 1 (documentObjects stackedData))))))
              (hitObjects markerWorld 1) =
            \<lparr>obj_x = 64, obj_y = 96, obj_width = 32, obj_height = 32, obj_name = Some ''start'',
             obj_properties = Some (emptyProperties\<lparr>prop_z := Some 2\<rparr>)\<rparr>"
    by (simp add: calls objs marker_documentObjects completed_def lacksName_def markerObjects_def
        markerUID_def)
  have o2: "completed (markerUID (uidCalls markerWorld + length (filter lacksName
              (map (hitObjects markerWorld) (take 2 (documentObjects stackedData))))))
              (hitObjects markerWorld 2) =
            \<lparr>obj_x = 0, obj_y = 0, obj_width = 1, obj_height = 1, obj_name = Some ''uu'',
             obj_properties = Some emptyProperties\<rparr>"
    by (simp add: calls objs marker_documentObjects completed_def lacksName_def markerObjects_def
        markerUID_def)
  have n0: "shape_name (rpgShapes (snd ?s) 0) = ''u''"
    using at [OF i0, unfolded r0 d0 o0] by (simp add: newRpgShape_def)
  have n1: "shape_name (rpgShapes (snd ?s) 1) = ''start''"
    using at [OF i1, unfolded r1 d1 o1] by (simp add: newRpgShape_def)
  have n2: "shape_name (rpgShapes (snd ?s) 2) = ''uu''"
    using at [OF i2, unfolded r2 d2 o2] by (simp add: newRpgShape_def)
  show ?thesis
    using d inj_markerUID reg n0 n1 n2 by simp
qed

text \<open>
  C10. \<open>createShape\<close> updates the caller's object in the store: its name becomes the
  generated one when it lacked a name, its properties become the empty mapping when it
  had none, and nothing else of it changes; no other raw object changes; the reference
  returned is the last entry of the registry, the one just pushed, and the shape it
  names is built from the updated object.
\<close>

theorem createShape_in_place:
  "hitObjects (snd (snd (createShape g obj (m, w)))) obj =
     (hitObjects w obj)
       \<lparr>obj_name := Some (if lacksName (hitObjects w obj) then g (uidCalls w)
                          else the (obj_name (hitObjects w obj))),
        obj_properties := Some (case obj_properties (hitObjects w obj) of
                                 Some p \<Rightarrow> p | None \<Rightarrow> emptyProperties)\<rparr>
   \<and> (\<forall>other. other \<noteq> obj \<longrightarrow>
         hitObjects (snd (snd (createShape g obj (m, w)))) other = hitObjects w other)
   \<and> fst (createShape g obj (m, w)) = last (shapes (fst (snd (createShape g obj (m, w)))))
   \<and> shapes (fst (snd (createShape g obj (m, w)))) = shapes m @ [fst (createShape g obj (m, w))]
   \<and> fst (createShape g obj (m, w)) = nextRef w
   \<and> rpgShapes (snd (snd (createShape g obj (m, w)))) (fst (createShape g obj (m, w))) =
       newRpgShape (hitObjects (snd (snd (createShape g obj (m, w)))) obj)"
  by (simp add: createShape_def Let_def)


theorem createShape_in_place_witness:
  "lacksName (hitObjects markerWorld 0) \<and> obj_properties (hitObjects markerWorld 0) = None \<and>
   hitObjects (snd (snd (createShape markerUID 0 (newRpgCommonMap, markerWorld)))) 0 =
     \<lparr>obj_x = 10, obj_y = 10, obj_width = 5, obj_height = 5, obj_name = Some ''u'',
      obj_properties = Some emptyProperties\<rparr> \<and>
   (1::nat) \<noteq> 0 \<and>
   hitObjects (snd (snd (createShape markerUID 0 (newRpgCommonMap, markerWorld)))) 1 =
     hitObjects markerWorld 1 \<and>
   fst (createShape markerUID 0 (newRpgCommonMap, markerWorld)) = 0 \<and>
   shapes (fst (snd (createShape markerUID 0 (newRpgCommonMap, markerWorld)))) = [0]"
proof -
  let ?r = "createShape markerUID 0 (newRpgCommonMap, markerWorld)"
  note t = createShape_in_place [of markerUID 0 newRpgCommonMap markerWorld]
  have obj: "hitObjects markerWorld 0 =
      \<lparr>obj_x = 10, obj_y = 10, obj_width = 5, obj_height = 5, obj_name = None,
       obj_properties = None\<rparr>"
    by (simp add: markerWorld_def markerObjects_def)
  have lack: "lacksName (hitObjects markerWorld 0)"
    and noprops: "obj_properties (hitObjects markerWorld 0) = None"
    by (simp_all add: obj lacksName_def)
  have uid: "markerUID (uidCalls markerWorld) = ''u''"
    by (simp add: markerWorld_def markerUID_def)
  have written: "hitObjects (snd (snd ?r)) 0 =
      \<lparr>obj_x = 10, obj_y = 10, obj_width = 5, obj_height = 5, obj_name = Some ''u'',
       obj_properties = Some emptyProperties\<rparr>"
    using t [THEN conjunct1] lack unfolding uid by (simp add: obj)
  have other: "hitObjects (snd (snd ?r)) 1 = hitObjects markerWorld 1"
    using t [THEN conjunct2, THEN conjunct1, rule_format, of 1] by simp
  have ref: "fst ?r = 0"
    using t [THEN conjunct2, THEN conjunct2, THEN conjunct2, THEN conjunct2, THEN conjunct1]
    by (simp add: markerWorld_def)
  have reg: "shapes (fst (snd ?r)) = [0]"
    using t [THEN conjunct2, THEN conjunct2, THEN conjunct2, THEN conjunct1]
    unfolding ref by (simp add: newRpgCommonMap_def)
  show ?thesis
    using lack noprops written other ref reg by simp
qed

section \<open>Properties of the GUI session\<close>

lemma callResolver_length: "length (promises (callResolver f v g)) = length (promises g)"
  by (simp add: callResolver_def Let_def split: resolver.splits)


lemma callResolver_frame:
  "gui_close (callResolver f v g) = gui_close g \<and>
   gui_blockPlayerInput (callResolver f v g) = gui_blockPlayerInput g \<and>
   player_canMove (callResolver f v g) = player_canMove g \<and>
   gui_id (callResolver f v g) = gui_id g"
  by (simp add: callResolver_def Let_def split: resolver.splits)

lemma callResolver_promise:
  "q < length (promises g) \<Longrightarrow>
   promises (callResolver f v g) ! q =
     (if f = ResolveOf q \<and> promises g ! q = Pending then Fulfilled v else promises g ! q)"
  by (auto simp add: callResolver_def Let_def nth_list_update split: resolver.splits)

lemma Gui_open_promise: "fst (Gui_open dat wa b g) = length (promises g)"
  by (simp add: Gui_open_def Let_def)

lemma Gui_open_length:
  "length (promises (snd (Gui_open dat wa b g))) = Suc (length (promises g))"
  by (simp add: Gui_open_def Let_def emit_def callResolver_length)

lemma Gui_open_new:
  "promises (snd (Gui_open dat wa b g)) ! length (promises g) =
     (if wa then Pending else Fulfilled None)"
  by (simp add: Gui_open_def Let_def emit_def callResolver_promise)

lemma Gui_open_old:
  "q < length (promises g) \<Longrightarrow> promises (snd (Gui_open dat wa b g)) ! q = promises g ! q"
  by (simp add: Gui_open_def Let_def emit_def callResolver_promise nth_append)

lemma Gui_open_close:
  "gui_close (snd (Gui_open dat wa b g)) =
     (if wa then ResolveOf (length (promises g)) else gui_close g)"
  by (simp add: Gui_open_def Let_def emit_def callResolver_frame)





lemma Gui_close_length: "length (promises (Gui_close dat g)) = length (promises g)"
  by (simp add: Gui_close_def Let_def emit_def callResolver_length)

lemma Gui_close_promise:
  "q < length (promises g) \<Longrightarrow>
   promises (Gui_close dat g) ! q =
     (if gui_close g = ResolveOf q \<and> promises g ! q = Pending then Fulfilled dat
      else promises g ! q)"
  by (simp add: Gui_close_def Let_def emit_def callResolver_promise)

lemma Gui_close_close: "gui_close (Gui_close dat g) = gui_close g"
  by (simp add: Gui_close_def Let_def emit_def callResolver_frame)






text \<open>Calls of \<open>open\<close> leave every earlier promise as it is.\<close>

lemma performAll_opens_pending:
  "q < length (promises g) \<Longrightarrow> promises g ! q = Pending \<Longrightarrow> list_all isOpen cs \<Longrightarrow>
   q < length (promises (performAll cs g)) \<and> promises (performAll cs g) ! q = Pending"
proof (induction cs arbitrary: g)
  case Nil
  then show ?case by simp
next
  case (Cons c cs)
  obtain dat wa b where c: "c = Open dat wa b"
    using Cons.prems(3) by (cases c) simp_all
  have "q < length (promises (perform c g))" and "promises (perform c g) ! q = Pending"
    using Cons.prems(1,2) by (simp_all add: c Gui_open_length Gui_open_old)
  then show ?case
    using Cons.IH [of "perform c g"] Cons.prems(3) by simp
qed

lemma perform_abandoned: "abandoned q g \<Longrightarrow> abandoned q (perform c g)"
  by (cases c)
     (auto simp add: abandoned_def Gui_open_length Gui_open_old Gui_open_close
        Gui_close_length Gui_close_promise Gui_close_close)

lemma performAll_abandoned: "abandoned q g \<Longrightarrow> abandoned q (performAll cs g)"
  by (induction cs arbitrary: g) (simp_all add: perform_abandoned)



text \<open>
  C9. The session stores one resolver. After \<open>open\<close> with \<open>waitingAction = true\<close>,
  any further calls of \<open>open\<close> and a second \<open>open\<close> with
  \<open>waitingAction = true\<close> made while the first promise is pending, the stored
  resolver is that of the second promise; \<open>close\<close> fulfils the second promise and
  leaves the first pending, and the first promise stays pending whatever is called
  later. Every call returns a state: none fails.
\<close>

theorem Gui_reopen_abandons_waiter:
  assumes "list_all isOpen mid"
      and "ga = performAll mid (snd (Gui_open da True ba (g :: 'v Gui)))"
      and "gb = snd (Gui_open db True bb ga)"
  shows "fst (Gui_open da True ba g) = length (promises g)
       \<and> fst (Gui_open db True bb ga) = length (promises ga)
       \<and> length (promises g) < length (promises ga)
       \<and> promises ga ! length (promises g) = Pending
       \<and> gui_close gb = ResolveOf (length (promises ga))
       \<and> promises gb ! length (promises g) = Pending
       \<and> promises gb ! length (promises ga) = Pending
       \<and> promises (Gui_close rd gb) ! length (promises ga) = Fulfilled rd
       \<and> promises (Gui_close rd gb) ! length (promises g) = Pending
       \<and> (\<forall>cs. promises (performAll cs gb) ! length (promises g) = Pending)"
proof -
  let ?p1 = "length (promises g)" and ?p2 = "length (promises ga)"
  let ?g0 = "snd (Gui_open da True ba g)"
  have "?p1 < length (promises ?g0)" and "promises ?g0 ! ?p1 = Pending"
    by (simp_all add: Gui_open_length Gui_open_new)
  then have first: "?p1 < ?p2 \<and> promises ga ! ?p1 = Pending"
    using performAll_opens_pending [OF _ _ assms(1)] assms(2) by blast
  then have ab: "abandoned ?p1 gb"
    unfolding assms(3) by (simp add: abandoned_def Gui_open_length Gui_open_old Gui_open_close)
  have stored: "gui_close gb = ResolveOf ?p2" and second: "promises gb ! ?p2 = Pending"
    and len: "?p2 < length (promises gb)"
    unfolding assms(3) by (simp_all add: Gui_open_close Gui_open_new Gui_open_length)
  have resolved: "promises (Gui_close rd gb) ! ?p2 = Fulfilled rd"
    using stored second len by (simp add: Gui_close_promise)
  have never: "\<forall>cs. promises (performAll cs gb) ! ?p1 = Pending"
    using performAll_abandoned [OF ab] by (simp add: abandoned_def)
  have "promises (performAll [Close rd] gb) ! ?p1 = Pending"
    using never by blast
  then have kept: "promises (Gui_close rd gb) ! ?p1 = Pending"
    by simp
  show ?thesis
    using first ab stored second resolved kept never
    by (simp add: Gui_open_promise abandoned_def)
qed

theorem Gui_reopen_abandons_waiter_witness:
  "list_all isOpen [Open None False False :: string call] \<and>
   fst (Gui_open (Some ''first'') True False (newGui ''shop'' :: string Gui)) = 0 \<and>
   fst (Gui_open (Some ''second'') True False
         (performAll [Open None False False]
           (snd (Gui_open (Some ''first'') True False (newGui ''shop'' :: string Gui))))) = 2 \<and>
   promises (Gui_close (Some ''ok'') (snd (Gui_open (Some ''second'') True False
         (performAll [Open None False False]
           (snd (Gui_open (Some ''first'') True False (newGui ''shop'' :: string Gui))))))) =
     [Pending, Fulfilled None, Fulfilled (Some ''ok'')] \<and>
   promises (performAll [Close (Some ''ok''), Close (Some ''again'')]
       (snd (Gui_open (Some ''second'') True False
         (performAll [Open None False False]
           (snd (Gui_open (Some ''first'') True False (newGui ''shop'' :: string Gui))))))) ! 0 =
     Pending"
proof -
  let ?g = "newGui ''shop'' :: string Gui"
  let ?g1 = "performAll [Open None False False] (snd (Gui_open (Some ''first'') True False ?g))"
  let ?g2 = "snd (Gui_open (Some ''second'') True False ?g1)"
  have opens: "list_all isOpen [Open None False False :: string call]"
    by simp
  note t = Gui_reopen_abandons_waiter
             [where mid = "[Open None False False]" and da = "Some ''first''" and ba = False
                and g = ?g and db = "Some ''second''" and bb = False and rd = "Some ''ok''",
              OF opens refl refl]
  have none: "length (promises ?g) = 0"
    by (simp add: newGui_def)
  have two: "length (promises ?g1) = 2"
    by (simp add: Gui_open_length none)
  have ref1: "fst (Gui_open (Some ''first'') True False ?g) = 0"
    using t [THEN conjunct1] by (simp add: none)
  have ref2: "fst (Gui_open (Some ''second'') True False ?g1) = 2"
    using t [THEN conjunct2, THEN conjunct1] by (simp only: two)
  have all: "promises (Gui_close (Some ''ok'') ?g2) =
               [Pending, Fulfilled None, Fulfilled (Some ''ok'')]"
    by (simp add: Gui_close_def Gui_open_def callResolver_def emit_def newGui_def Let_def)
  have never: "promises (performAll [Close (Some ''ok''), Close (Some ''again'')] ?g2) ! 0 = Pending"
    using t [THEN conjunct2, THEN conjunct2, THEN conjunct2, THEN conjunct2, THEN conjunct2,
             THEN conjunct2, THEN conjunct2, THEN conjunct2, THEN conjunct2, rule_format]
    by (simp only: none)
  show ?thesis
    using opens ref1 ref2 all never by blast
qed

end
